theory Spec2Isabelle
  imports Main "HOL-Library.Char_ord" "HOL-Library.List_Lexorder" "HOL-Library.AList"
    "HOL-Library.Multiset"
begin

section \<open>Strings, numbers and the leading-number key\<close>

text \<open>
  File names are modelled as \<^typ>\<open>string\<close>. Python's \<^verbatim>\<open>\d\<close> on a \<^verbatim>\<open>str\<close> pattern
  matches the decimal digits of Unicode; among the characters a \<^typ>\<open>char\<close> can hold
  (code points 0 to 255) these are exactly \<^verbatim>\<open>0\<close> to \<^verbatim>\<open>9\<close>.
\<close>

definition is_digit :: "char \<Rightarrow> bool" where
  "is_digit c = ((48::nat) \<le> of_char c \<and> of_char c \<le> (57::nat))"

definition digit_value :: "char \<Rightarrow> nat" where
  "digit_value c = of_char c - 48"

text \<open>
  \<^verbatim>\<open>int(s)\<close> for a string of decimal digits, the only strings the program passes to
  it (group 1 of \<^verbatim>\<open>(\d+)\<close>). The digits are read left to right. A file name is a
  directory entry (at most 255 bytes on the usual file systems), far below the 4300 digits
  at which recent interpreters refuse the conversion, so the conversion is total here.
\<close>

definition py_int :: "string \<Rightarrow> int" where
  "py_int s = foldl (\<lambda>n c. 10 * n + int (digit_value c)) 0 s"

text \<open>\<^verbatim>\<open>re.match(r"(\d+)", name)\<close>: the longest run of digits at the start, if not empty.\<close>

definition re_match_digits :: "string \<Rightarrow> string option" where
  "re_match_digits name =
     (let g = takeWhile is_digit name in if g = [] then None else Some g)"

definition extract_number :: "string \<Rightarrow> int" where
  "extract_number name =
     (case re_match_digits name of
        Some g \<Rightarrow> py_int g
      | None \<Rightarrow> 999999999)"

text \<open>\<^verbatim>\<open>sorted(xs, key=k)\<close>: a stable sort, ascending in the key.\<close>

definition sorted_by_key :: "('a \<Rightarrow> int) \<Rightarrow> 'a list \<Rightarrow> 'a list" where
  "sorted_by_key k xs = sort_key k xs"

text \<open>\<^verbatim>\<open>str(n)\<close> of an integer and \<^verbatim>\<open>s.zfill(width)\<close>.\<close>

definition digit_char :: "nat \<Rightarrow> char" where
  "digit_char d = ''0123456789'' ! d"

fun digits_of :: "nat \<Rightarrow> string" where
  "digits_of n = (if n < 10 then [digit_char n] else digits_of (n div 10) @ [digit_char (n mod 10)])"

declare digits_of.simps [simp del]

definition py_str :: "int \<Rightarrow> string" where
  "py_str i = (if i < 0 then CHR ''-'' # digits_of (nat (- i)) else digits_of (nat i))"

definition zfill :: "nat \<Rightarrow> string \<Rightarrow> string" where
  "zfill width s =
     (if width \<le> length s then s
      else if s \<noteq> [] \<and> (hd s = CHR ''+'' \<or> hd s = CHR ''-'')
           then hd s # replicate (width - length s) CHR ''0'' @ tl s
      else replicate (width - length s) CHR ''0'' @ s)"

text \<open>
  The words of the specification, to compare the code with: a name "has a leading digit
  run" when its first character is a digit, and a run of digits "interpreted as an
  integer" is its positional value in base ten.
\<close>

definition starts_with_digit :: "string \<Rightarrow> bool" where
  "starts_with_digit name = (name \<noteq> [] \<and> is_digit (hd name))"

definition decimal_value :: "string \<Rightarrow> int" where
  "decimal_value ds = (\<Sum>i<length ds. int (digit_value (ds ! i)) * 10 ^ (length ds - 1 - i))"

section \<open>Paths and the file system\<close>

text \<open>
  A \<^verbatim>\<open>pathlib.Path\<close> relative to the working directory is the list of its components;
  \<^verbatim>\<open>Path(".")\<close> is the empty list. The operator \<^verbatim>\<open>/\<close> is only ever applied to one
  component without a separator: a fixed name, the zero-padded number, or the number
  followed by \<^verbatim>\<open>.pdf\<close>.
\<close>

type_synonym path = "string list"

definition path_div :: "path \<Rightarrow> string \<Rightarrow> path" where
  "path_div p s = p @ [s]"

definition path_name :: "path \<Rightarrow> string" where
  "path_name p = (if p = [] then [] else last p)"

definition str_path :: "path \<Rightarrow> string" where
  "str_path p = (if p = [] then ''.'' else foldr (\<lambda>c acc. if acc = [] then c else c @ ''/'' @ acc) p [])"

text \<open>\<^verbatim>\<open>Path.stem\<close>: the name up to its last dot, when that dot is neither first nor last.\<close>

definition rfind_dot :: "string \<Rightarrow> nat option" where
  "rfind_dot name =
     (if CHR ''.'' \<in> set name
      then Some (length name - 1 - length (takeWhile (\<lambda>c. c \<noteq> CHR ''.'') (rev name)))
      else None)"

definition path_stem :: "path \<Rightarrow> string" where
  "path_stem p =
     (let name = path_name p in
      case rfind_dot name of
        Some i \<Rightarrow> if 0 < i \<and> i < length name - 1 then take i name else name
      | None \<Rightarrow> name)"

definition BASE_DIR :: path where
  "BASE_DIR = []"

definition VIDEO_DIR :: path where
  "VIDEO_DIR = path_div BASE_DIR ''video''"

definition OUTPUT_DIR :: path where
  "OUTPUT_DIR = path_div BASE_DIR ''pdf''"

definition USE_GPU :: bool where
  "USE_GPU = False"

text \<open>
  What a file holds, as far as the libraries tell it apart: an image (its pixels stand
  for a page), a PDF (its pages), or anything else. The file system is the list of its
  entries, in the order a directory scan yields them; the working directory always exists.
\<close>

datatype content = Img nat | Pdf "nat list" | Other

datatype node = Dir | File content

type_synonym filesystem = "(path \<times> node) list"

datatype error =
    FileExistsError
  | FileNotFoundError
  | NotADirectoryError
  | IsADirectoryError
  | OSError
  | UnidentifiedImageError
  | PdfReadError

definition lookup :: "filesystem \<Rightarrow> path \<Rightarrow> node option" where
  "lookup fs p = (if p = [] then Some Dir else map_of fs p)"

definition path_exists :: "filesystem \<Rightarrow> path \<Rightarrow> bool" where
  "path_exists fs p = (lookup fs p \<noteq> None)"

definition is_dir :: "filesystem \<Rightarrow> path \<Rightarrow> bool" where
  "is_dir fs p = (lookup fs p = Some Dir)"

text \<open>
  \<^verbatim>\<open>Path.glob\<close> with a pattern \<^verbatim>\<open>pre*suf\<close> (all the patterns of the program have this
  form): the entries of the directory whose name starts with \<^verbatim>\<open>pre\<close> and ends with
  \<^verbatim>\<open>suf\<close>, files and directories alike; nothing when the path is not a directory.
\<close>

definition fnmatch :: "string \<times> string \<Rightarrow> string \<Rightarrow> bool" where
  "fnmatch pat name =
     (case pat of (pre, suf) \<Rightarrow>
        length pre + length suf \<le> length name
        \<and> take (length pre) name = pre
        \<and> drop (length name - length suf) name = suf)"

definition scandir :: "filesystem \<Rightarrow> path \<Rightarrow> path list" where
  "scandir fs d = [q \<leftarrow> map fst fs. q \<noteq> [] \<and> butlast q = d]"

definition glob :: "filesystem \<Rightarrow> path \<Rightarrow> string \<times> string \<Rightarrow> path list" where
  "glob fs d pat = (if is_dir fs d then [q \<leftarrow> scandir fs d. fnmatch pat (last q)] else [])"

text \<open>The system calls: each either fails and changes nothing, or succeeds.\<close>

definition os_mkdir :: "filesystem \<Rightarrow> path \<Rightarrow> error + filesystem" where
  "os_mkdir fs p =
     (if path_exists fs p then Inl FileExistsError
      else case lookup fs (butlast p) of
             None \<Rightarrow> Inl FileNotFoundError
           | Some (File c) \<Rightarrow> Inl NotADirectoryError
           | Some Dir \<Rightarrow> Inr (fs @ [(p, Dir)]))"

definition unlink :: "filesystem \<Rightarrow> path \<Rightarrow> error + filesystem" where
  "unlink fs p =
     (case lookup fs p of
        None \<Rightarrow> Inl FileNotFoundError
      | Some Dir \<Rightarrow> Inl IsADirectoryError
      | Some (File c) \<Rightarrow> Inr (AList.delete p fs))"

definition rmdir :: "filesystem \<Rightarrow> path \<Rightarrow> error + filesystem" where
  "rmdir fs p =
     (case lookup fs p of
        None \<Rightarrow> Inl FileNotFoundError
      | Some (File c) \<Rightarrow> Inl NotADirectoryError
      | Some Dir \<Rightarrow>
          if p = [] \<or> scandir fs p \<noteq> [] then Inl OSError
          else Inr (AList.delete p fs))"

text \<open>Opening a path for writing and writing the whole content.\<close>

definition write_file :: "filesystem \<Rightarrow> path \<Rightarrow> content \<Rightarrow> error + filesystem" where
  "write_file fs p c =
     (case lookup fs p of
        Some Dir \<Rightarrow> Inl IsADirectoryError
      | _ \<Rightarrow>
        (case lookup fs (butlast p) of
           None \<Rightarrow> Inl FileNotFoundError
         | Some (File x) \<Rightarrow> Inl NotADirectoryError
         | Some Dir \<Rightarrow> Inr (AList.update p (File c) fs)))"

text \<open>
  \<^verbatim>\<open>Path.mkdir(parents=False, exist_ok=...)\<close> and \<^verbatim>\<open>Path.mkdir(parents=True, exist_ok=True)\<close>,
  as pathlib writes them: try the system call; on a missing parent make the parents and
  try again; on any other error give up unless \<^verbatim>\<open>exist_ok\<close> holds and the path is a
  directory. Every failure comes before the first directory is made.
\<close>

definition mkdir_single :: "filesystem \<Rightarrow> path \<Rightarrow> bool \<Rightarrow> error + filesystem" where
  "mkdir_single fs p exist_ok =
     (case os_mkdir fs p of
        Inr fs' \<Rightarrow> Inr fs'
      | Inl e \<Rightarrow>
          if e = FileNotFoundError then Inl e
          else if \<not> exist_ok \<or> \<not> is_dir fs p then Inl e
          else Inr fs)"

function mkdir_parents :: "filesystem \<Rightarrow> path \<Rightarrow> error + filesystem" where
  "mkdir_parents fs p =
     (case os_mkdir fs p of
        Inr fs' \<Rightarrow> Inr fs'
      | Inl e \<Rightarrow>
          if e = FileNotFoundError then
            (if p = [] then Inl e
             else case mkdir_parents fs (butlast p) of
                    Inl e' \<Rightarrow> Inl e'
                  | Inr fs1 \<Rightarrow> mkdir_single fs1 p True)
          else if \<not> is_dir fs p then Inl e
          else Inr fs)"
  by pat_completeness auto
termination
  by (relation "measure (\<lambda>(fs, p). length p)") auto

declare mkdir_parents.simps [simp del]

section \<open>The state of a run and the outside world\<close>

text \<open>
  Everything the program changes or emits: the files, the lines \<^verbatim>\<open>safe_print\<close> wrote,
  the entries \<^verbatim>\<open>logging.error\<close> added to the persistent log, the command lines handed
  to \<^verbatim>\<open>subprocess.run\<close>, the image objects opened and not yet closed, and the calls
  of \<^verbatim>\<open>Image.save\<close>. A raised exception is the value \<open>Inl\<close>; the state
  comes back beside it, since what was done before the raise stays done.
\<close>

datatype message =
    Frames_already_exist string
  | Extracting_frames string
  | Frame_extraction_complete string
  | PDF_exists_skipping string
  | NO_frames_found path
  | Creating_PDF string
  | PDF_created string
  | Processing string
  | ERROR_processing string error
  | Merged_PDF_already_exists
  | Merging_PDFs
  | Adding string
  | Final_merged_PDF_created path
  | ERROR_ffmpeg_not_installed
  | ERROR_video_folder_missing
  | No_video_files_found
  | Starting_processing
  | ALL_DONE

record state =
  files :: filesystem
  console :: "message list"
  run_log :: "error list"
  tool_calls :: "string list list"
  open_images :: "path list"
  pdf_saves :: "path list"

text \<open>The state at the start of a run over the given files.\<close>

definition start_state :: "filesystem \<Rightarrow> state" where
  "start_state fs =
     \<lparr>files = fs, console = [], run_log = [], tool_calls = [], open_images = [], pdf_saves = []\<rparr>"

text \<open>
  The external tool: whether \<^verbatim>\<open>shutil.which("ffmpeg")\<close> finds it, and what running a
  command line does to the files. Nothing is assumed about the latter.
\<close>

record env =
  ffmpeg_on_path :: bool
  ffmpeg_run :: "string list \<Rightarrow> filesystem \<Rightarrow> filesystem"

text \<open>
  Two tools for the examples: one that writes no frame, as for a video that cannot be
  decoded, and one that writes a first frame into a given directory.
\<close>

definition no_frames_tool :: "string list \<Rightarrow> filesystem \<Rightarrow> filesystem" where
  "no_frames_tool cmd fs = fs"

definition one_frame_tool :: "path \<Rightarrow> string list \<Rightarrow> filesystem \<Rightarrow> filesystem" where
  "one_frame_tool d cmd fs = AList.update (path_div d ''frame_0001.jpg'') (File (Img 0)) fs"

text \<open>
  \<^verbatim>\<open>safe_print\<close> joins its arguments and prints them, falling back to ASCII with
  replacement characters; a message is recorded by its call site and arguments.
\<close>

definition safe_print :: "message \<Rightarrow> state \<Rightarrow> state" where
  "safe_print m st = st\<lparr>console := console st @ [m]\<rparr>"

definition logging_error :: "error \<Rightarrow> state \<Rightarrow> state" where
  "logging_error e st = st\<lparr>run_log := run_log st @ [e]\<rparr>"

definition ffmpeg_exists :: "env \<Rightarrow> bool" where
  "ffmpeg_exists e = ffmpeg_on_path e"

text \<open>\<^verbatim>\<open>subprocess.run(cmd, ...)\<close>: raises when the executable is not found; the exit
  status is not looked at.\<close>

definition subprocess_run :: "env \<Rightarrow> string list \<Rightarrow> state \<Rightarrow> (error + unit) \<times> state" where
  "subprocess_run e cmd st =
     (if \<not> ffmpeg_on_path e then (Inl FileNotFoundError, st)
      else (Inr (), st\<lparr>files := ffmpeg_run e cmd (files st), tool_calls := tool_calls st @ [cmd]\<rparr>))"

section \<open>Frame extraction\<close>

definition ffmpeg_cmd :: "path \<Rightarrow> path \<Rightarrow> string list" where
  "ffmpeg_cmd video_path output_subfolder =
     (let output_pattern = str_path (path_div output_subfolder ''frame_%04d.jpg'');
          cmd = [''ffmpeg'', ''-i'', str_path video_path, ''-vf'', ''fps=0.02''];
          cmd' = (if USE_GPU then hd cmd # ''-hwaccel'' # ''cuda'' # tl cmd else cmd)
      in cmd' @ [output_pattern])"

definition extract_frames :: "env \<Rightarrow> path \<Rightarrow> path \<Rightarrow> state \<Rightarrow> (error + bool) \<times> state" where
  "extract_frames e video_path output_subfolder st =
     (case mkdir_parents (files st) output_subfolder of
        Inl err \<Rightarrow> (Inl err, st)
      | Inr fs1 \<Rightarrow>
          let st1 = st\<lparr>files := fs1\<rparr> in
          if glob fs1 output_subfolder (''frame_'', ''.jpg'') \<noteq> [] then
            (Inr True, safe_print (Frames_already_exist (path_name video_path)) st1)
          else
            let st2 = safe_print (Extracting_frames (path_name video_path)) st1 in
            case subprocess_run e (ffmpeg_cmd video_path output_subfolder) st2 of
              (Inl err, st3) \<Rightarrow> (Inl err, st3)
            | (Inr u, st3) \<Rightarrow>
                (Inr True, safe_print (Frame_extraction_complete (path_name video_path)) st3))"

section \<open>Images to PDF\<close>

text \<open>\<^verbatim>\<open>Image.open(p).convert("RGB")\<close>: the image object joins the open ones.\<close>

definition image_open :: "path \<Rightarrow> state \<Rightarrow> (error + nat) \<times> state" where
  "image_open p st =
     (case lookup (files st) p of
        None \<Rightarrow> (Inl FileNotFoundError, st)
      | Some Dir \<Rightarrow> (Inl IsADirectoryError, st)
      | Some (File c) \<Rightarrow>
          (case c of
             Img i \<Rightarrow> (Inr i, st\<lparr>open_images := open_images st @ [p]\<rparr>)
           | _ \<Rightarrow> (Inl UnidentifiedImageError, st)))"

fun open_all :: "path list \<Rightarrow> state \<Rightarrow> (error + nat list) \<times> state" where
  "open_all [] st = (Inr [], st)"
| "open_all (p # ps) st =
     (case image_open p st of
        (Inl err, st1) \<Rightarrow> (Inl err, st1)
      | (Inr i, st1) \<Rightarrow>
          (case open_all ps st1 of
             (Inl err, st2) \<Rightarrow> (Inl err, st2)
           | (Inr imgs, st2) \<Rightarrow> (Inr (i # imgs), st2)))"

text \<open>\<^verbatim>\<open>first.save(pdf_path, save_all=True, append_images=others)\<close>.\<close>

definition image_save :: "path \<Rightarrow> nat list \<Rightarrow> state \<Rightarrow> (error + unit) \<times> state" where
  "image_save pdf_path pages st =
     (let st1 = st\<lparr>pdf_saves := pdf_saves st @ [pdf_path]\<rparr> in
      case write_file (files st1) pdf_path (Pdf pages) of
        Inl err \<Rightarrow> (Inl err, st1)
      | Inr fs' \<Rightarrow> (Inr (), st1\<lparr>files := fs'\<rparr>))"

definition image_close :: "path \<Rightarrow> state \<Rightarrow> state" where
  "image_close p st = st\<lparr>open_images := remove1 p (open_images st)\<rparr>"

definition images_to_pdf :: "path \<Rightarrow> path \<Rightarrow> state \<Rightarrow> (error + bool) \<times> state" where
  "images_to_pdf image_folder pdf_path st =
     (if path_exists (files st) pdf_path then
        (Inr True, safe_print (PDF_exists_skipping (path_name pdf_path)) st)
      else
        let images = sort (glob (files st) image_folder ([], ''.jpg'')) in
        if images = [] then
          (Inr False, safe_print (NO_frames_found image_folder) st)
        else
          let st1 = safe_print (Creating_PDF (path_name pdf_path)) st in
          case image_open (hd images) st1 of
            (Inl err, st2) \<Rightarrow> (Inl err, st2)
          | (Inr first, st2) \<Rightarrow>
              (case open_all (tl images) st2 of
                 (Inl err, st3) \<Rightarrow> (Inl err, st3)
               | (Inr others, st3) \<Rightarrow>
                   (case image_save pdf_path (first # others) st3 of
                      (Inl err, st4) \<Rightarrow> (Inl err, st4)
                    | (Inr u, st4) \<Rightarrow>
                        let st5 = image_close (hd images) st4;
                            st6 = fold image_close (tl images) st5
                        in (Inr True, safe_print (PDF_created (path_name pdf_path)) st6))))"

section \<open>Deleting the frames\<close>

fun unlink_all :: "path list \<Rightarrow> filesystem \<Rightarrow> (error + unit) \<times> filesystem" where
  "unlink_all [] fs = (Inr (), fs)"
| "unlink_all (f # rest) fs =
     (case unlink fs f of
        Inl err \<Rightarrow> (Inl err, fs)
      | Inr fs' \<Rightarrow> unlink_all rest fs')"

definition delete_frames :: "path \<Rightarrow> state \<Rightarrow> (error + unit) \<times> state" where
  "delete_frames folder st =
     (case unlink_all (glob (files st) folder ([], ''.jpg'')) (files st) of
        (Inl err, fs1) \<Rightarrow> (Inl err, st\<lparr>files := fs1\<rparr>)
      | (Inr u, fs1) \<Rightarrow>
          (case rmdir fs1 folder of
             Inl err \<Rightarrow> (Inr (), st\<lparr>files := fs1\<rparr>)
           | Inr fs2 \<Rightarrow> (Inr (), st\<lparr>files := fs2\<rparr>)))"

section \<open>Processing one video\<close>

definition number_of :: "path \<Rightarrow> string" where
  "number_of video_path = zfill 3 (py_str (extract_number (path_name video_path)))"

definition img_dir_of :: "path \<Rightarrow> path" where
  "img_dir_of video_path = path_div OUTPUT_DIR (number_of video_path)"

definition pdf_path_of :: "path \<Rightarrow> path" where
  "pdf_path_of video_path = path_div OUTPUT_DIR (number_of video_path @ ''.pdf'')"

text \<open>The handler of \<^verbatim>\<open>except Exception as e\<close>.\<close>

definition on_exception :: "path \<Rightarrow> error \<Rightarrow> state \<Rightarrow> bool \<times> state" where
  "on_exception video_path err st =
     (False, logging_error err (safe_print (ERROR_processing (path_name video_path) err) st))"

definition process_video :: "env \<Rightarrow> path \<Rightarrow> state \<Rightarrow> bool \<times> state" where
  "process_video e video_path st =
     (let st0 = safe_print (Processing (path_name video_path)) st;
          img_dir = img_dir_of video_path;
          pdf_path = pdf_path_of video_path
      in case extract_frames e video_path img_dir st0 of
           (Inl err, st1) \<Rightarrow> on_exception video_path err st1
         | (Inr r1, st1) \<Rightarrow>
             (case images_to_pdf img_dir pdf_path st1 of
                (Inl err, st2) \<Rightarrow> on_exception video_path err st2
              | (Inr r2, st2) \<Rightarrow>
                  (case delete_frames img_dir st2 of
                     (Inl err, st3) \<Rightarrow> on_exception video_path err st3
                   | (Inr u, st3) \<Rightarrow> (True, st3))))"

section \<open>Merging the PDFs\<close>

text \<open>\<^verbatim>\<open>PdfReader(str(p))\<close>: the pages of a PDF file.\<close>

definition pdf_reader :: "filesystem \<Rightarrow> path \<Rightarrow> error + nat list" where
  "pdf_reader fs p =
     (case lookup fs p of
        None \<Rightarrow> Inl FileNotFoundError
      | Some Dir \<Rightarrow> Inl IsADirectoryError
      | Some (File c) \<Rightarrow>
          (case c of Pdf pages \<Rightarrow> Inr pages | _ \<Rightarrow> Inl PdfReadError))"

text \<open>The loop over the sorted PDFs; \<open>writer\<close> holds the pages appended so far.\<close>

fun append_all :: "path list \<Rightarrow> nat list \<Rightarrow> state \<Rightarrow> (error + nat list) \<times> state" where
  "append_all [] writer st = (Inr writer, st)"
| "append_all (p # ps) writer st =
     (let st1 = safe_print (Adding (path_name p)) st in
      case pdf_reader (files st1) p of
        Inl err \<Rightarrow> (Inl err, st1)
      | Inr pages \<Rightarrow> append_all ps (writer @ pages) st1)"

text \<open>The merged file, and the PDFs of the output directory in the order of the merge.\<close>

definition merged_pdf :: path where
  "merged_pdf = path_div OUTPUT_DIR ''final_merged.pdf''"

definition sorted_pdfs :: "filesystem \<Rightarrow> path list" where
  "sorted_pdfs fs =
     sorted_by_key (\<lambda>f. extract_number (path_stem f)) (glob fs OUTPUT_DIR ([], ''.pdf''))"

definition merge_all_pdfs :: "state \<Rightarrow> (error + unit) \<times> state" where
  "merge_all_pdfs st =
     (let merged = merged_pdf in
      if path_exists (files st) merged then
        (Inr (), safe_print Merged_PDF_already_exists st)
      else
        let pdfs = sorted_pdfs (files st);
            st1 = safe_print Merging_PDFs st
        in case append_all pdfs [] st1 of
             (Inl err, st2) \<Rightarrow> (Inl err, st2)
           | (Inr writer, st2) \<Rightarrow>
               (case write_file (files st2) merged (Pdf writer) of
                  Inl err \<Rightarrow> (Inl err, st2)
                | Inr fs' \<Rightarrow>
                    (Inr (), safe_print (Final_merged_PDF_created merged) (st2\<lparr>files := fs'\<rparr>))))"

text \<open>The pages a path holds when it is a PDF file, for stating what the merge writes.\<close>

definition pages_of :: "filesystem \<Rightarrow> path \<Rightarrow> nat list" where
  "pages_of fs p = (case pdf_reader fs p of Inr pages \<Rightarrow> pages | Inl err \<Rightarrow> [])"

section \<open>The batch driver\<close>

text \<open>
  The pool of four workers is modelled by one of its schedules, the videos one after the
  other in sorted order; the results of the workers are dropped, as the program drops
  them. No statement below depends on the order in which the workers run.
\<close>

definition run_pool :: "env \<Rightarrow> path list \<Rightarrow> state \<Rightarrow> state" where
  "run_pool e videos st = fold (\<lambda>v s. snd (process_video e v s)) videos st"

definition discover_videos :: "filesystem \<Rightarrow> path list" where
  "discover_videos fs =
     sorted_by_key (\<lambda>f. extract_number (path_name f))
       (glob fs VIDEO_DIR ([], ''.mp4'') @ glob fs VIDEO_DIR ([], ''.webm'')
        @ glob fs VIDEO_DIR ([], ''.mkv''))"

definition main :: "env \<Rightarrow> state \<Rightarrow> (error + unit) \<times> state" where
  "main e st =
     (if \<not> ffmpeg_exists e then (Inr (), safe_print ERROR_ffmpeg_not_installed st)
      else if \<not> path_exists (files st) VIDEO_DIR then
        (Inr (), safe_print ERROR_video_folder_missing st)
      else
        case mkdir_single (files st) OUTPUT_DIR True of
          Inl err \<Rightarrow> (Inl err, st)
        | Inr fs1 \<Rightarrow>
            let st1 = st\<lparr>files := fs1\<rparr>;
                videos = discover_videos fs1
            in if videos = [] then (Inr (), safe_print No_video_files_found st1)
               else
                 let st2 = safe_print Starting_processing st1;
                     st3 = run_pool e videos st2
                 in case merge_all_pdfs st3 of
                      (Inl err, st4) \<Rightarrow> (Inl err, st4)
                    | (Inr u, st4) \<Rightarrow> (Inr (), safe_print ALL_DONE st4))"

section \<open>The leading-number key\<close>

lemma py_int_snoc: "py_int (ds @ [c]) = 10 * py_int ds + int (digit_value c)"
  by (simp add: py_int_def)

lemma py_int_decimal_value: "py_int ds = decimal_value ds"
proof (induction ds rule: rev_induct)
  case Nil
  show ?case by (simp add: py_int_def decimal_value_def)
next
  case (snoc c ds)
  have pw: "(10::int) ^ (length ds - i) = 10 * 10 ^ (length ds - Suc i)" if "i < length ds" for i
    using that by (simp add: Suc_diff_Suc flip: power_Suc)
  have "(\<Sum>i<length ds. int (digit_value ((ds @ [c]) ! i)) * 10 ^ (length ds - i))
      = (\<Sum>i<length ds. 10 * (int (digit_value (ds ! i)) * 10 ^ (length ds - 1 - i)))"
    by (rule sum.cong) (simp_all add: nth_append pw)
  then have "decimal_value (ds @ [c]) = 10 * decimal_value ds + int (digit_value c)"
    by (simp add: decimal_value_def sum_distrib_left)
  with snoc show ?case by (simp add: py_int_snoc)
qed

lemma py_int_nonneg: "0 \<le> py_int ds"
  by (induction ds rule: rev_induct) (simp_all add: py_int_def)

lemma extract_number_nonneg: "0 \<le> extract_number name"
  by (simp add: extract_number_def py_int_nonneg split: option.split)

lemma re_match_digits_run:
  assumes "ds \<noteq> []" "list_all is_digit ds" "rest = [] \<or> \<not> is_digit (hd rest)"
  shows "re_match_digits (ds @ rest) = Some ds"
proof -
  have "takeWhile is_digit (ds @ rest) = ds @ takeWhile is_digit rest"
    using assms(2) by (simp add: list_all_iff takeWhile_append2)
  moreover have "takeWhile is_digit rest = []"
    using assms(3) by (cases rest) auto
  ultimately show ?thesis using assms(1) by (simp add: re_match_digits_def)
qed

lemma re_match_digits_none:
  "\<not> starts_with_digit name \<Longrightarrow> re_match_digits name = None"
  by (cases name) (auto simp: re_match_digits_def starts_with_digit_def)

lemma extract_number_sentinel:
  "\<not> starts_with_digit name \<Longrightarrow> extract_number name = 999999999"
  by (simp add: extract_number_def re_match_digits_none)

lemma sorted_by_key_sorted: "sorted (map k (sorted_by_key k xs))"
  by (simp add: sorted_by_key_def)

lemma sorted_by_key_length: "length (sorted_by_key k xs) = length xs"
  by (simp add: sorted_by_key_def)

lemma sorted_by_key_mset: "mset (sorted_by_key k xs) = mset xs"
  by (simp add: sorted_by_key_def)

lemma sorted_by_key_order:
  assumes "i < length xs" "j < length xs"
    and "k (sorted_by_key k xs ! i) < k (sorted_by_key k xs ! j)"
  shows "i < j"
proof (rule ccontr)
  assume "\<not> i < j"
  then have ji: "j \<le> i" by simp
  have "map k (sorted_by_key k xs) ! j \<le> map k (sorted_by_key k xs) ! i"
    using sorted_by_key_sorted[of k xs] ji assms(1)
    by (intro sorted_nth_mono) (simp_all add: sorted_by_key_length)
  then show False using assms by (simp add: sorted_by_key_length)
qed

text \<open>
  Claim C1, as the code has it. For a name that starts with a run of decimal digits
  \<open>ds\<close> (followed by nothing or by a character that is not a digit),
  \<open>extract_number\<close> returns the value of \<open>ds\<close> in base ten; for a name that does not
  start with a digit it returns 999999999; and in a list sorted by this key, a name that
  does not start with a digit stands after every name whose leading number is below
  999999999.
\<close>

theorem extract_number_key:
  "(ds \<noteq> [] \<and> list_all is_digit ds \<and> (rest = [] \<or> \<not> is_digit (hd rest))
      \<longrightarrow> extract_number (ds @ rest) = decimal_value ds)
   \<and> (\<not> starts_with_digit name \<longrightarrow> extract_number name = 999999999)
   \<and> (i < length xs \<and> j < length xs
        \<and> starts_with_digit (sorted_by_key extract_number xs ! i)
        \<and> extract_number (sorted_by_key extract_number xs ! i) < 999999999
        \<and> \<not> starts_with_digit (sorted_by_key extract_number xs ! j)
      \<longrightarrow> i < j)"
proof (intro conjI impI)
  assume "ds \<noteq> [] \<and> list_all is_digit ds \<and> (rest = [] \<or> \<not> is_digit (hd rest))"
  then have "re_match_digits (ds @ rest) = Some ds" by (simp add: re_match_digits_run)
  then show "extract_number (ds @ rest) = decimal_value ds"
    by (simp add: extract_number_def py_int_decimal_value)
next
  assume "\<not> starts_with_digit name"
  then show "extract_number name = 999999999"
    by (rule extract_number_sentinel)
next
  let ?s = "sorted_by_key extract_number xs"
  assume a: "i < length xs \<and> j < length xs \<and> starts_with_digit (?s ! i)
    \<and> extract_number (?s ! i) < 999999999 \<and> \<not> starts_with_digit (?s ! j)"
  then have "extract_number (?s ! j) = 999999999"
    by (simp add: extract_number_sentinel)
  with a show "i < j" by (intro sorted_by_key_order[of i xs j extract_number]) simp_all
qed

lemmas key_eval =
  extract_number_def re_match_digits_def is_digit_def py_int_def digit_value_def
  starts_with_digit_def sorted_by_key_def

theorem extract_number_key_witness:
  "extract_number (''012'' @ '' Lecture.mp4'') = decimal_value ''012''
   \<and> decimal_value ''012'' = 12
   \<and> extract_number ''Lecture.mp4'' = 999999999
   \<and> sorted_by_key extract_number [''Lecture.mp4'', ''012 Lecture.mp4'']
       = [''012 Lecture.mp4'', ''Lecture.mp4'']
   \<and> (0::nat) < 1"
proof -
  have s: "sorted_by_key extract_number [''Lecture.mp4'', ''012 Lecture.mp4'']
       = [''012 Lecture.mp4'', ''Lecture.mp4'']"
    by (simp add: key_eval)
  have d: "decimal_value ''012'' = 12"
    by (simp add: decimal_value_def digit_value_def lessThan_Suc numeral_3_eq_3)
  have e: "extract_number ''012 Lecture.mp4'' = 12"
    by (simp add: key_eval)
  have h1: "''012'' \<noteq> [] \<and> list_all is_digit ''012''
      \<and> ('' Lecture.mp4'' = [] \<or> \<not> is_digit (hd '' Lecture.mp4''))"
    by (simp add: is_digit_def)
  have h2: "\<not> starts_with_digit ''Lecture.mp4''"
    by (simp add: starts_with_digit_def is_digit_def)
  have h3: "0 < length [''Lecture.mp4'', ''012 Lecture.mp4'']
      \<and> 1 < length [''Lecture.mp4'', ''012 Lecture.mp4'']
      \<and> starts_with_digit (sorted_by_key extract_number [''Lecture.mp4'', ''012 Lecture.mp4''] ! 0)
      \<and> extract_number (sorted_by_key extract_number [''Lecture.mp4'', ''012 Lecture.mp4''] ! 0)
          < 999999999
      \<and> \<not> starts_with_digit (sorted_by_key extract_number [''Lecture.mp4'', ''012 Lecture.mp4''] ! 1)"
    unfolding s using e h2 by (simp add: starts_with_digit_def is_digit_def)
  from extract_number_key[of "''012''" "'' Lecture.mp4''" "''Lecture.mp4''" 0
      "[''Lecture.mp4'', ''012 Lecture.mp4'']" 1] h1 h2 h3 s d
  show ?thesis by simp
qed

text \<open>
  The claim as the specification words it fails: a name without leading digits is sorted
  before a name whose leading number exceeds 999999999.
\<close>

theorem sentinel_not_last_counterexample:
  "starts_with_digit ''1000000000.mp4'' \<and> \<not> starts_with_digit ''a.mp4''
   \<and> extract_number ''a.mp4'' = 999999999
   \<and> extract_number ''1000000000.mp4'' = 1000000000
   \<and> sorted_by_key extract_number [''1000000000.mp4'', ''a.mp4'']
       = [''a.mp4'', ''1000000000.mp4'']"
  by (simp add: key_eval)

section \<open>The frame directory and the PDF path of a video\<close>

lemma below_ten:
  assumes "d < (10::nat)"
  shows "d = 0 \<or> d = 1 \<or> d = 2 \<or> d = 3 \<or> d = 4 \<or> d = 5 \<or> d = 6 \<or> d = 7 \<or> d = 8 \<or> d = 9"
  using assms by arith

lemma digit_value_digit_char: "d < 10 \<Longrightarrow> digit_value (digit_char d) = d"
  using below_ten[of d] by (auto simp: digit_value_def digit_char_def)

lemma is_digit_digit_char: "d < 10 \<Longrightarrow> is_digit (digit_char d)"
  using below_ten[of d] by (auto simp: is_digit_def digit_char_def)

lemma py_int_digits_of: "py_int (digits_of n) = int n"
proof (induction n rule: digits_of.induct)
  case (1 n)
  show ?case
  proof (cases "n < 10")
    case True
    then show ?thesis
      by (subst digits_of.simps) (simp add: py_int_def digit_value_digit_char)
  next
    case False
    then have "py_int (digits_of n) = 10 * py_int (digits_of (n div 10)) + int (n mod 10)"
      by (subst digits_of.simps) (simp add: py_int_snoc digit_value_digit_char)
    also have "\<dots> = 10 * int (n div 10) + int (n mod 10)"
      using False "1" by simp
    also have "\<dots> = int (10 * (n div 10) + n mod 10)"
      by (simp only: of_nat_add of_nat_mult of_nat_numeral)
    finally show ?thesis by simp
  qed
qed

lemma digits_of_digits: "list_all is_digit (digits_of n)"
proof (induction n rule: digits_of.induct)
  case (1 n)
  show ?case
  proof (cases "n < 10")
    case True
    then show ?thesis by (subst digits_of.simps) (simp add: is_digit_digit_char)
  next
    case False
    with "1" show ?thesis by (subst digits_of.simps) (simp add: is_digit_digit_char)
  qed
qed

lemma digits_of_nonempty: "digits_of n \<noteq> []"
  by (subst digits_of.simps) simp

lemma py_int_zeros: "py_int (replicate k CHR ''0'' @ s) = py_int s"
  by (induction k) (simp_all add: py_int_def digit_value_def)

lemma zfill_digits:
  assumes "s \<noteq> []" "list_all is_digit s"
  shows "zfill w s = replicate (w - length s) CHR ''0'' @ s"
proof -
  have "is_digit (hd s)" using assms by (cases s) simp_all
  then have "hd s \<noteq> CHR ''+'' \<and> hd s \<noteq> CHR ''-''" by (auto simp: is_digit_def)
  then show ?thesis by (simp add: zfill_def)
qed

lemma number_of_digits:
  "number_of v = replicate (3 - length (digits_of (nat (extract_number (path_name v))))) CHR ''0''
                 @ digits_of (nat (extract_number (path_name v)))"
  using extract_number_nonneg[of "path_name v"]
  by (simp add: number_of_def py_str_def zfill_digits digits_of_nonempty digits_of_digits)

lemma py_int_number_of: "py_int (number_of v) = extract_number (path_name v)"
  using extract_number_nonneg[of "path_name v"]
  by (simp add: number_of_digits py_int_zeros py_int_digits_of)

lemma number_of_all_digits: "list_all is_digit (number_of v)"
  using digits_of_digits[of "nat (extract_number (path_name v))"]
  by (auto simp: number_of_digits is_digit_def list_all_iff)

lemma number_of_eq_iff:
  "number_of v = number_of w \<longleftrightarrow> extract_number (path_name v) = extract_number (path_name w)"
proof
  assume "number_of v = number_of w"
  then have "py_int (number_of v) = py_int (number_of w)" by simp
  then show "extract_number (path_name v) = extract_number (path_name w)"
    by (simp add: py_int_number_of)
next
  assume "extract_number (path_name v) = extract_number (path_name w)"
  then show "number_of v = number_of w" by (simp add: number_of_def)
qed

lemma video_paths_shared_iff:
  "(img_dir_of v = img_dir_of w \<longleftrightarrow> extract_number (path_name v) = extract_number (path_name w))
   \<and> (pdf_path_of v = pdf_path_of w \<longleftrightarrow> extract_number (path_name v) = extract_number (path_name w))"
  by (simp add: img_dir_of_def pdf_path_of_def path_div_def number_of_eq_iff)

lemma img_dir_is_no_pdf_path: "img_dir_of v \<noteq> pdf_path_of w"
proof -
  have "\<not> is_digit (CHR ''.'')" by (simp add: is_digit_def)
  then have "number_of v \<noteq> number_of w @ ''.pdf''"
    using number_of_all_digits[of v] by (auto simp: list_all_iff)
  then show ?thesis by (simp add: img_dir_of_def pdf_path_of_def path_div_def)
qed

text \<open>
  Claim C3, as the code has it. Two videos whose names have different leading-number
  keys are given different frame directories and different PDF paths, and no frame
  directory is the PDF path of any video.
\<close>

theorem video_paths_disjoint_for_distinct_keys:
  "(extract_number (path_name v) \<noteq> extract_number (path_name w) \<longrightarrow>
      img_dir_of v \<noteq> img_dir_of w \<and> pdf_path_of v \<noteq> pdf_path_of w)
   \<and> img_dir_of v \<noteq> pdf_path_of w"
  by (simp add: video_paths_shared_iff img_dir_is_no_pdf_path)

lemma zfill_3_examples:
  "zfill 3 ''1'' = ''001''" "zfill 3 ''2'' = ''002''" "zfill 3 ''999999999'' = ''999999999''"
  by (simp_all add: zfill_def numeral_2_eq_2 numeral_3_eq_3)

lemma py_str_examples:
  "py_str 1 = ''1''" "py_str 2 = ''2''" "py_str 999999999 = ''999999999''"
  by (simp_all add: py_str_def digits_of.simps digit_char_def)

lemma extract_number_examples:
  "extract_number ''001 a.mp4'' = 1" "extract_number ''002 b.mp4'' = 2"
  "extract_number ''a.mp4'' = 999999999" "extract_number ''b.mp4'' = 999999999"
  "extract_number ''1 intro.mp4'' = 1" "extract_number ''01 outro.mkv'' = 1"
  by (simp_all add: key_eval)

lemmas path_eval =
  img_dir_of_def pdf_path_of_def number_of_def path_name_def OUTPUT_DIR_def
  BASE_DIR_def path_div_def extract_number_examples py_str_examples zfill_3_examples

theorem video_paths_disjoint_for_distinct_keys_witness:
  "img_dir_of [''video'', ''001 a.mp4''] \<noteq> img_dir_of [''video'', ''002 b.mp4'']
   \<and> pdf_path_of [''video'', ''001 a.mp4''] \<noteq> pdf_path_of [''video'', ''002 b.mp4'']
   \<and> img_dir_of [''video'', ''001 a.mp4''] \<noteq> pdf_path_of [''video'', ''002 b.mp4'']
   \<and> img_dir_of [''video'', ''001 a.mp4''] = [''pdf'', ''001'']
   \<and> pdf_path_of [''video'', ''002 b.mp4''] = [''pdf'', ''002.pdf'']"
proof -
  have k: "extract_number (path_name [''video'', ''001 a.mp4''])
      \<noteq> extract_number (path_name [''video'', ''002 b.mp4''])"
    by (simp add: path_name_def extract_number_examples)
  have "img_dir_of [''video'', ''001 a.mp4''] = [''pdf'', ''001'']"
    by (simp add: path_eval)
  moreover have "pdf_path_of [''video'', ''002 b.mp4''] = [''pdf'', ''002.pdf'']"
    by (simp add: path_eval)
  moreover from video_paths_disjoint_for_distinct_keys[of "[''video'', ''001 a.mp4'']"
      "[''video'', ''002 b.mp4'']"] k
  have "img_dir_of [''video'', ''001 a.mp4''] \<noteq> img_dir_of [''video'', ''002 b.mp4'']
      \<and> pdf_path_of [''video'', ''001 a.mp4''] \<noteq> pdf_path_of [''video'', ''002 b.mp4'']
      \<and> img_dir_of [''video'', ''001 a.mp4''] \<noteq> pdf_path_of [''video'', ''002 b.mp4'']"
    by blast
  ultimately show ?thesis by blast
qed

text \<open>
  The claim as the specification words it fails: two different videos are discovered, and
  both are given the frame directory and the PDF path of the sentinel; two names that
  write the same number with different padding share theirs as well.
\<close>

theorem distinct_videos_same_paths_counterexample:
  "[''video'', ''a.mp4''] \<noteq> [''video'', ''b.mp4'']
   \<and> discover_videos [([''video''], Dir), ([''video'', ''a.mp4''], File Other),
                       ([''video'', ''b.mp4''], File Other)]
       = [[''video'', ''a.mp4''], [''video'', ''b.mp4'']]
   \<and> img_dir_of [''video'', ''a.mp4''] = [''pdf'', ''999999999'']
   \<and> img_dir_of [''video'', ''b.mp4''] = [''pdf'', ''999999999'']
   \<and> pdf_path_of [''video'', ''a.mp4''] = [''pdf'', ''999999999.pdf'']
   \<and> pdf_path_of [''video'', ''b.mp4''] = [''pdf'', ''999999999.pdf'']
   \<and> img_dir_of [''video'', ''1 intro.mp4''] = [''pdf'', ''001'']
   \<and> img_dir_of [''video'', ''01 outro.mkv''] = [''pdf'', ''001'']"
proof -
  have "discover_videos [([''video''], Dir), ([''video'', ''a.mp4''], File Other),
                       ([''video'', ''b.mp4''], File Other)]
       = [[''video'', ''a.mp4''], [''video'', ''b.mp4'']]"
    by (simp add: discover_videos_def glob_def scandir_def fnmatch_def is_dir_def lookup_def
        VIDEO_DIR_def BASE_DIR_def path_div_def sorted_by_key_def path_name_def
        extract_number_examples)
  moreover have "img_dir_of [''video'', ''a.mp4''] = [''pdf'', ''999999999'']"
    "img_dir_of [''video'', ''b.mp4''] = [''pdf'', ''999999999'']"
    "pdf_path_of [''video'', ''a.mp4''] = [''pdf'', ''999999999.pdf'']"
    "pdf_path_of [''video'', ''b.mp4''] = [''pdf'', ''999999999.pdf'']"
    "img_dir_of [''video'', ''1 intro.mp4''] = [''pdf'', ''001'']"
    "img_dir_of [''video'', ''01 outro.mkv''] = [''pdf'', ''001'']"
    by (simp_all add: path_eval)
  ultimately show ?thesis by simp
qed

section \<open>Facts about the file system\<close>

lemma lookup_root [simp]: "lookup fs [] = Some Dir"
  by (simp add: lookup_def)

lemma lookup_update:
  "lookup (AList.update p n fs) q = (if q = [] then Some Dir else if q = p then Some n else lookup fs q)"
  by (simp add: lookup_def update_conv')

lemma lookup_append_entry:
  "lookup (fs @ [(p, n)]) q =
     (case lookup fs q of Some x \<Rightarrow> Some x | None \<Rightarrow> if q = p then Some n else None)"
  by (auto simp: lookup_def map_add_def split: option.splits)


lemma os_mkdir_existing: "path_exists fs p \<Longrightarrow> os_mkdir fs p = Inl FileExistsError"
  by (simp add: os_mkdir_def)



lemma mkdir_parents_existing: "is_dir fs p \<Longrightarrow> mkdir_parents fs p = Inr fs"
  by (subst mkdir_parents.simps) (simp add: os_mkdir_existing path_exists_def is_dir_def)

lemma mkdir_single_existing: "is_dir fs p \<Longrightarrow> mkdir_single fs p True = Inr fs"
  by (simp add: mkdir_single_def os_mkdir_existing path_exists_def is_dir_def)

lemma glob_nonempty_is_dir: "glob fs d pat \<noteq> [] \<Longrightarrow> is_dir fs d"
  by (simp add: glob_def split: if_splits)


section \<open>Assembling the pages\<close>

lemma safe_print_fields [simp]:
  "files (safe_print m st) = files st"
  "console (safe_print m st) = console st @ [m]"
  "run_log (safe_print m st) = run_log st"
  "tool_calls (safe_print m st) = tool_calls st"
  "open_images (safe_print m st) = open_images st"
  "pdf_saves (safe_print m st) = pdf_saves st"
  by (simp_all add: safe_print_def)

lemma image_open_frame:
  "image_open p st = (r, st') \<Longrightarrow> \<exists>os. st' = st\<lparr>open_images := os\<rparr>"
  by (auto simp: image_open_def split: option.splits node.splits content.splits
      intro: exI[of _ "open_images st"])

lemma open_all_frame:
  "open_all ps st = (r, st') \<Longrightarrow> \<exists>os. st' = st\<lparr>open_images := os\<rparr>"
proof (induction ps arbitrary: st r st')
  case Nil
  then show ?case by (auto intro: exI[of _ "open_images st"])
next
  case (Cons p ps)
  obtain r1 st1 where o1: "image_open p st = (r1, st1)" by (cases "image_open p st")
  then obtain os1 where s1: "st1 = st\<lparr>open_images := os1\<rparr>" using image_open_frame by blast
  show ?case
  proof (cases r1)
    case (Inl err)
    with Cons.prems o1 s1 show ?thesis by auto
  next
    case (Inr i)
    obtain r2 st2 where o2: "open_all ps st1 = (r2, st2)" by (cases "open_all ps st1")
    then obtain os2 where s2: "st2 = st1\<lparr>open_images := os2\<rparr>" using Cons.IH by blast
    from Cons.prems o1 o2 Inr have "st' = st2" by (auto split: sum.splits)
    with s1 s2 show ?thesis by auto
  qed
qed

lemma fold_image_close:
  "fold image_close ps st = st\<lparr>open_images := fold remove1 ps (open_images st)\<rparr>"
  by (induction ps arbitrary: st) (simp_all add: image_close_def)

lemma write_file_exists: "write_file fs p c = Inr fs' \<Longrightarrow> path_exists fs' p"
  by (auto simp: write_file_def path_exists_def lookup_update
      split: option.splits node.splits)

lemma images_to_pdf_skip:
  "path_exists (files st) pdf_path \<Longrightarrow>
   images_to_pdf image_folder pdf_path st
     = (Inr True, safe_print (PDF_exists_skipping (path_name pdf_path)) st)"
  by (simp add: images_to_pdf_def)

lemma images_to_pdf_empty:
  "\<not> path_exists (files st) pdf_path \<Longrightarrow> glob (files st) image_folder ([], ''.jpg'') = [] \<Longrightarrow>
   images_to_pdf image_folder pdf_path st = (Inr False, safe_print (NO_frames_found image_folder) st)"
  by (simp add: images_to_pdf_def)

lemma images_to_pdf_assembled:
  assumes "\<not> path_exists (files st) pdf_path"
    and "glob (files st) image_folder ([], ''.jpg'') \<noteq> []"
    and "images_to_pdf image_folder pdf_path st = (Inr r, st1)"
  shows "r \<and> path_exists (files st1) pdf_path \<and> pdf_saves st1 = pdf_saves st @ [pdf_path]"
proof -
  let ?images = "sort (glob (files st) image_folder ([], ''.jpg''))"
  let ?st1 = "safe_print (Creating_PDF (path_name pdf_path)) st"
  have ne: "?images \<noteq> []" using assms(2) by (metis length_sort length_0_conv)
  obtain r2 st2 where o2: "image_open (hd ?images) ?st1 = (r2, st2)"
    by (cases "image_open (hd ?images) ?st1")
  obtain r3 st3 where o3: "open_all (tl ?images) st2 = (r3, st3)"
    by (cases "open_all (tl ?images) st2")
  from o2 obtain os2 where s2: "st2 = ?st1\<lparr>open_images := os2\<rparr>"
    using image_open_frame by blast
  from o3 obtain os3 where s3: "st3 = st2\<lparr>open_images := os3\<rparr>"
    using open_all_frame by blast
  from assms(1,3) ne o2 obtain first where r2: "r2 = Inr first"
    by (cases r2) (auto simp: images_to_pdf_def Let_def)
  from assms(1,3) ne o2 o3 r2 obtain others where r3: "r3 = Inr others"
    by (cases r3) (auto simp: images_to_pdf_def Let_def)
  obtain r4 st4 where o4: "image_save pdf_path (first # others) st3 = (r4, st4)"
    by (cases "image_save pdf_path (first # others) st3")
  from assms(1,3) ne o2 o3 o4 r2 r3 have r4: "r4 = Inr ()"
    by (cases r4) (auto simp: images_to_pdf_def Let_def)
  from o4 r4 have e4: "path_exists (files st4) pdf_path"
    and p4: "pdf_saves st4 = pdf_saves st3 @ [pdf_path]"
    by (auto simp: image_save_def Let_def write_file_exists split: sum.splits)
  from assms(1,3) ne o2 o3 o4 r2 r3 r4
  have "r" and st1: "st1 = safe_print (PDF_created (path_name pdf_path))
      (fold image_close (tl ?images) (image_close (hd ?images) st4))"
    by (auto simp: images_to_pdf_def Let_def)
  from st1 e4 p4 s2 s3 have "path_exists (files st1) pdf_path"
    and "pdf_saves st1 = pdf_saves st @ [pdf_path]"
    by (simp_all add: fold_image_close image_close_def)
  with \<open>r\<close> show ?thesis by simp
qed


lemma images_to_pdf_files:
  assumes "images_to_pdf image_folder pdf_path st = (r, st1)"
  shows "files st1 = files st \<or> (r = Inr True \<and> path_exists (files st1) pdf_path)"
proof -
  consider (skip) "path_exists (files st) pdf_path"
    | (empty) "\<not> path_exists (files st) pdf_path" "glob (files st) image_folder ([], ''.jpg'') = []"
    | (assemble) "\<not> path_exists (files st) pdf_path" "glob (files st) image_folder ([], ''.jpg'') \<noteq> []"
    by blast
  then show ?thesis
  proof cases
    case skip
    with assms show ?thesis by (auto simp: images_to_pdf_skip)
  next
    case empty
    with assms show ?thesis by (auto simp: images_to_pdf_empty)
  next
    case assemble
    let ?images = "sort (glob (files st) image_folder ([], ''.jpg''))"
    let ?st1 = "safe_print (Creating_PDF (path_name pdf_path)) st"
    have ne: "?images \<noteq> []" using assemble(2) by (metis length_sort length_0_conv)
    obtain r2 st2 where o2: "image_open (hd ?images) ?st1 = (r2, st2)"
      by (cases "image_open (hd ?images) ?st1")
    obtain r3 st3 where o3: "open_all (tl ?images) st2 = (r3, st3)"
      by (cases "open_all (tl ?images) st2")
    from o2 obtain os2 where s2: "st2 = ?st1\<lparr>open_images := os2\<rparr>"
      using image_open_frame by blast
    from o3 obtain os3 where s3: "st3 = st2\<lparr>open_images := os3\<rparr>"
      using open_all_frame by blast
    show ?thesis
    proof (cases r)
      case (Inr b)
      with images_to_pdf_assembled[OF assemble] assms show ?thesis by simp
    next
      case (Inl err)
      show ?thesis
      proof (cases r2)
        case e2: (Inl err2)
        with assms assemble(1) ne o2 s2 show ?thesis
          by (auto simp: images_to_pdf_def Let_def)
      next
        case v2: (Inr first)
        show ?thesis
        proof (cases r3)
          case e3: (Inl err3)
          with assms assemble(1) ne o2 o3 v2 s2 s3 show ?thesis
            by (auto simp: images_to_pdf_def Let_def)
        next
          case v3: (Inr others)
          obtain r4 st4 where o4: "image_save pdf_path (first # others) st3 = (r4, st4)"
            by (cases "image_save pdf_path (first # others) st3")
          with assms assemble(1) ne o2 o3 v2 v3 Inl obtain err4 where "r4 = Inl err4" "st1 = st4"
            by (cases r4) (auto simp: images_to_pdf_def Let_def)
          with o4 have "files st1 = files st3"
            by (auto simp: image_save_def Let_def split: sum.splits)
          with s2 s3 show ?thesis by simp
        qed
      qed
    qed
  qed
qed

text \<open>
  Claim C8. When the target PDF does not exist and the frame directory has no entry
  matching \<^verbatim>\<open>*.jpg\<close>, \<open>images_to_pdf\<close> returns the failure flag, prints "NO frames
  found" for the directory, and leaves the files as they were: no PDF is made, nothing is
  saved, no image is opened.
\<close>

theorem images_to_pdf_no_frames:
  assumes "\<not> path_exists (files st) pdf_path"
    and "glob (files st) image_folder ([], ''.jpg'') = []"
  shows "fst (images_to_pdf image_folder pdf_path st) = Inr False
    \<and> console (snd (images_to_pdf image_folder pdf_path st))
        = console st @ [NO_frames_found image_folder]
    \<and> files (snd (images_to_pdf image_folder pdf_path st)) = files st
    \<and> \<not> path_exists (files (snd (images_to_pdf image_folder pdf_path st))) pdf_path
    \<and> pdf_saves (snd (images_to_pdf image_folder pdf_path st)) = pdf_saves st
    \<and> open_images (snd (images_to_pdf image_folder pdf_path st)) = open_images st"
  using assms by (simp add: images_to_pdf_empty)

lemmas fs_eval =
  glob_def scandir_def fnmatch_def is_dir_def lookup_def path_exists_def path_name_def
  start_state_def safe_print_def Let_def

theorem images_to_pdf_no_frames_witness:
  "fst (images_to_pdf [''pdf'', ''001''] [''pdf'', ''001.pdf'']
         (start_state [([''pdf''], Dir), ([''pdf'', ''001''], Dir),
                       ([''pdf'', ''001'', ''cover.png''], File (Img 3))])) = Inr False
   \<and> files (snd (images_to_pdf [''pdf'', ''001''] [''pdf'', ''001.pdf'']
         (start_state [([''pdf''], Dir), ([''pdf'', ''001''], Dir),
                       ([''pdf'', ''001'', ''cover.png''], File (Img 3))])))
       = [([''pdf''], Dir), ([''pdf'', ''001''], Dir),
          ([''pdf'', ''001'', ''cover.png''], File (Img 3))]
   \<and> console (snd (images_to_pdf [''pdf'', ''001''] [''pdf'', ''001.pdf'']
         (start_state [([''pdf''], Dir), ([''pdf'', ''001''], Dir),
                       ([''pdf'', ''001'', ''cover.png''], File (Img 3))])))
       = [NO_frames_found [''pdf'', ''001'']]"
proof -
  let ?st = "start_state [([''pdf''], Dir), ([''pdf'', ''001''], Dir),
                       ([''pdf'', ''001'', ''cover.png''], File (Img 3))]"
  have h1: "\<not> path_exists (files ?st) [''pdf'', ''001.pdf'']"
    by (simp add: fs_eval)
  have h2: "glob (files ?st) [''pdf'', ''001''] ([], ''.jpg'') = []"
    by (simp add: fs_eval)
  from images_to_pdf_no_frames[OF h1 h2]
  show ?thesis by (simp add: start_state_def)
qed

text \<open>
  Claim C7, as the code has it. When the target PDF exists, \<open>images_to_pdf\<close> prints
  that it skips, returns success and does nothing else. Hence, when one invocation has
  returned (with either flag, no exception raised), a second
  invocation on the state it left returns the same flag, saves nothing, opens no image
  and changes no file; over the two invocations the PDF is saved at most once. Whatever
  the outcome of the first invocation, raising included, at most one of two invocations
  in a row changes the files.
\<close>

theorem images_to_pdf_idempotent:
  "(path_exists (files st) pdf_path \<longrightarrow>
      images_to_pdf image_folder pdf_path st
        = (Inr True, safe_print (PDF_exists_skipping (path_name pdf_path)) st))
   \<and> (images_to_pdf image_folder pdf_path st = (Inr r, st1) \<longrightarrow>
        fst (images_to_pdf image_folder pdf_path st1) = Inr r
        \<and> files (snd (images_to_pdf image_folder pdf_path st1)) = files st1
        \<and> pdf_saves (snd (images_to_pdf image_folder pdf_path st1)) = pdf_saves st1
        \<and> open_images (snd (images_to_pdf image_folder pdf_path st1)) = open_images st1
        \<and> length (pdf_saves st1) \<le> Suc (length (pdf_saves st)))
   \<and> (files (snd (images_to_pdf image_folder pdf_path st)) = files st
        \<or> files (snd (images_to_pdf image_folder pdf_path
                          (snd (images_to_pdf image_folder pdf_path st))))
            = files (snd (images_to_pdf image_folder pdf_path st)))"
proof (intro conjI)
  show "path_exists (files st) pdf_path \<longrightarrow>
      images_to_pdf image_folder pdf_path st
        = (Inr True, safe_print (PDF_exists_skipping (path_name pdf_path)) st)"
    by (simp add: images_to_pdf_skip)
next
  obtain r1 s1 where o1: "images_to_pdf image_folder pdf_path st = (r1, s1)"
    by (cases "images_to_pdf image_folder pdf_path st")
  obtain r2 s2 where o2: "images_to_pdf image_folder pdf_path s1 = (r2, s2)"
    by (cases "images_to_pdf image_folder pdf_path s1")
  from images_to_pdf_files[OF o1] have "files s1 = files st \<or> files s2 = files s1"
  proof
    assume "files s1 = files st"
    then show ?thesis by simp
  next
    assume "r1 = Inr True \<and> path_exists (files s1) pdf_path"
    with o2 have "s2 = safe_print (PDF_exists_skipping (path_name pdf_path)) s1"
      by (simp add: images_to_pdf_skip)
    then show ?thesis by simp
  qed
  with o1 o2 show "files (snd (images_to_pdf image_folder pdf_path st)) = files st
        \<or> files (snd (images_to_pdf image_folder pdf_path
                          (snd (images_to_pdf image_folder pdf_path st))))
            = files (snd (images_to_pdf image_folder pdf_path st))"
    by simp
next
  show "images_to_pdf image_folder pdf_path st = (Inr r, st1) \<longrightarrow>
        fst (images_to_pdf image_folder pdf_path st1) = Inr r
        \<and> files (snd (images_to_pdf image_folder pdf_path st1)) = files st1
        \<and> pdf_saves (snd (images_to_pdf image_folder pdf_path st1)) = pdf_saves st1
        \<and> open_images (snd (images_to_pdf image_folder pdf_path st1)) = open_images st1
        \<and> length (pdf_saves st1) \<le> Suc (length (pdf_saves st))"
  proof
  assume first: "images_to_pdf image_folder pdf_path st = (Inr r, st1)"
  consider (skip) "path_exists (files st) pdf_path"
    | (empty) "\<not> path_exists (files st) pdf_path" "glob (files st) image_folder ([], ''.jpg'') = []"
    | (assemble) "\<not> path_exists (files st) pdf_path" "glob (files st) image_folder ([], ''.jpg'') \<noteq> []"
    by blast
  then show "fst (images_to_pdf image_folder pdf_path st1) = Inr r
        \<and> files (snd (images_to_pdf image_folder pdf_path st1)) = files st1
        \<and> pdf_saves (snd (images_to_pdf image_folder pdf_path st1)) = pdf_saves st1
        \<and> open_images (snd (images_to_pdf image_folder pdf_path st1)) = open_images st1
        \<and> length (pdf_saves st1) \<le> Suc (length (pdf_saves st))"
  proof cases
    case skip
    with first have "r" and "st1 = safe_print (PDF_exists_skipping (path_name pdf_path)) st"
      by (simp_all add: images_to_pdf_skip)
    with skip show ?thesis by (simp add: images_to_pdf_skip)
  next
    case empty
    with first have "\<not> r" and "st1 = safe_print (NO_frames_found image_folder) st"
      by (simp_all add: images_to_pdf_empty)
    with empty show ?thesis by (simp add: images_to_pdf_empty)
  next
    case assemble
    from images_to_pdf_assembled[OF assemble first]
    show ?thesis by (simp add: images_to_pdf_skip)
  qed
  qed
qed

lemmas pdf_eval =
  images_to_pdf_def image_open_def image_save_def write_file_def image_close_def

theorem images_to_pdf_idempotent_witness:
  "images_to_pdf [''pdf'', ''001''] [''pdf'', ''001.pdf'']
     (start_state [([''pdf''], Dir), ([''pdf'', ''001''], Dir),
                   ([''pdf'', ''001'', ''frame_0001.jpg''], File (Img 7))])
   = (Inr True,
      \<lparr>files = [([''pdf''], Dir), ([''pdf'', ''001''], Dir),
                ([''pdf'', ''001'', ''frame_0001.jpg''], File (Img 7)),
                ([''pdf'', ''001.pdf''], File (Pdf [7]))],
       console = [Creating_PDF ''001.pdf'', PDF_created ''001.pdf''],
       run_log = [], tool_calls = [], open_images = [],
       pdf_saves = [[''pdf'', ''001.pdf'']]\<rparr>)
   \<and> images_to_pdf [''pdf'', ''001''] [''pdf'', ''001.pdf'']
     \<lparr>files = [([''pdf''], Dir), ([''pdf'', ''001''], Dir),
                ([''pdf'', ''001'', ''frame_0001.jpg''], File (Img 7)),
                ([''pdf'', ''001.pdf''], File (Pdf [7]))],
       console = [Creating_PDF ''001.pdf'', PDF_created ''001.pdf''],
       run_log = [], tool_calls = [], open_images = [],
       pdf_saves = [[''pdf'', ''001.pdf'']]\<rparr>
   = (Inr True,
      \<lparr>files = [([''pdf''], Dir), ([''pdf'', ''001''], Dir),
                ([''pdf'', ''001'', ''frame_0001.jpg''], File (Img 7)),
                ([''pdf'', ''001.pdf''], File (Pdf [7]))],
       console = [Creating_PDF ''001.pdf'', PDF_created ''001.pdf'', PDF_exists_skipping ''001.pdf''],
       run_log = [], tool_calls = [], open_images = [],
       pdf_saves = [[''pdf'', ''001.pdf'']]\<rparr>)"
proof -
  let ?st0 = "start_state [([''pdf''], Dir), ([''pdf'', ''001''], Dir),
                   ([''pdf'', ''001'', ''frame_0001.jpg''], File (Img 7))]"
  let ?st1 = "\<lparr>files = [([''pdf''], Dir), ([''pdf'', ''001''], Dir),
                ([''pdf'', ''001'', ''frame_0001.jpg''], File (Img 7)),
                ([''pdf'', ''001.pdf''], File (Pdf [7]))],
       console = [Creating_PDF ''001.pdf'', PDF_created ''001.pdf''],
       run_log = [], tool_calls = [], open_images = [],
       pdf_saves = [[''pdf'', ''001.pdf'']]\<rparr>"
  have first: "images_to_pdf [''pdf'', ''001''] [''pdf'', ''001.pdf''] ?st0 = (Inr True, ?st1)"
    by (simp add: pdf_eval fs_eval)
  have ex: "path_exists (files ?st1) [''pdf'', ''001.pdf'']"
    by (simp add: fs_eval)
  from images_to_pdf_idempotent[of ?st1 "[''pdf'', ''001.pdf'']" "[''pdf'', ''001'']"] ex
  have second: "images_to_pdf [''pdf'', ''001''] [''pdf'', ''001.pdf''] ?st1
      = (Inr True, safe_print (PDF_exists_skipping (path_name [''pdf'', ''001.pdf''])) ?st1)"
    by blast
  from images_to_pdf_idempotent[where st = ?st0 and pdf_path = "[''pdf'', ''001.pdf'']"
      and image_folder = "[''pdf'', ''001'']" and r = True and ?st1.0 = ?st1] first
  have "fst (images_to_pdf [''pdf'', ''001''] [''pdf'', ''001.pdf''] ?st1) = Inr True
      \<and> files (snd (images_to_pdf [''pdf'', ''001''] [''pdf'', ''001.pdf''] ?st1)) = files ?st1
      \<and> pdf_saves (snd (images_to_pdf [''pdf'', ''001''] [''pdf'', ''001.pdf''] ?st1))
          = pdf_saves ?st1"
    by blast
  with first second show ?thesis by (simp add: safe_print_def path_name_def)
qed

text \<open>
  The claim as the specification words it fails: when the directory of the target PDF is
  missing, the save raises and leaves no file, so a second invocation opens the frame and
  saves again; two invocations have then saved twice.
\<close>

theorem images_to_pdf_saves_twice_counterexample:
  "images_to_pdf [''frames''] [''out'', ''001.pdf'']
     (start_state [([''frames''], Dir), ([''frames'', ''frame_0001.jpg''], File (Img 11))])
   = (Inl FileNotFoundError,
      \<lparr>files = [([''frames''], Dir), ([''frames'', ''frame_0001.jpg''], File (Img 11))],
       console = [Creating_PDF ''001.pdf''], run_log = [], tool_calls = [],
       open_images = [[''frames'', ''frame_0001.jpg'']],
       pdf_saves = [[''out'', ''001.pdf'']]\<rparr>)
   \<and> images_to_pdf [''frames''] [''out'', ''001.pdf'']
     \<lparr>files = [([''frames''], Dir), ([''frames'', ''frame_0001.jpg''], File (Img 11))],
       console = [Creating_PDF ''001.pdf''], run_log = [], tool_calls = [],
       open_images = [[''frames'', ''frame_0001.jpg'']],
       pdf_saves = [[''out'', ''001.pdf'']]\<rparr>
   = (Inl FileNotFoundError,
      \<lparr>files = [([''frames''], Dir), ([''frames'', ''frame_0001.jpg''], File (Img 11))],
       console = [Creating_PDF ''001.pdf'', Creating_PDF ''001.pdf''], run_log = [],
       tool_calls = [],
       open_images = [[''frames'', ''frame_0001.jpg''], [''frames'', ''frame_0001.jpg'']],
       pdf_saves = [[''out'', ''001.pdf''], [''out'', ''001.pdf'']]\<rparr>)"
  by (simp add: pdf_eval fs_eval)

section \<open>Extracting the frames\<close>

lemma extract_frames_skip:
  assumes "glob (files st) d (''frame_'', ''.jpg'') \<noteq> []"
  shows "extract_frames e v d st = (Inr True, safe_print (Frames_already_exist (path_name v)) st)"
proof -
  have "mkdir_parents (files st) d = Inr (files st)"
    using assms by (intro mkdir_parents_existing glob_nonempty_is_dir)
  with assms show ?thesis by (simp add: extract_frames_def)
qed

lemma extract_frames_tool_calls:
  "extract_frames e v d st = (r, st1) \<Longrightarrow>
   tool_calls st1 = tool_calls st \<or> tool_calls st1 = tool_calls st @ [ffmpeg_cmd v d]"
  by (auto simp: extract_frames_def subprocess_run_def Let_def split: sum.splits if_splits)

text \<open>
  Claim C6, as the code has it. When frame files exist in the directory,
  \<open>extract_frames\<close> returns success without running the tool and without changing a
  file. Hence, when a first invocation has returned and left at least one frame file in
  the directory, a second invocation runs nothing and returns success, and the two
  together have run the tool at most once.
\<close>

theorem extract_frames_idempotent:
  "(glob (files st) d (''frame_'', ''.jpg'') \<noteq> [] \<longrightarrow>
      extract_frames e v d st
        = (Inr True, safe_print (Frames_already_exist (path_name v)) st))
   \<and> (extract_frames e v d st = (Inr r, st1) \<and> glob (files st1) d (''frame_'', ''.jpg'') \<noteq> [] \<longrightarrow>
        extract_frames e v d st1
          = (Inr True, safe_print (Frames_already_exist (path_name v)) st1)
        \<and> length (tool_calls st1) \<le> Suc (length (tool_calls st)))"
proof (rule conjI; rule impI)
  assume "glob (files st) d (''frame_'', ''.jpg'') \<noteq> []"
  then show "extract_frames e v d st
        = (Inr True, safe_print (Frames_already_exist (path_name v)) st)"
    by (rule extract_frames_skip)
next
  assume a: "extract_frames e v d st = (Inr r, st1) \<and> glob (files st1) d (''frame_'', ''.jpg'') \<noteq> []"
  then have "length (tool_calls st1) \<le> Suc (length (tool_calls st))"
    using extract_frames_tool_calls[of e v d st "Inr r" st1] by auto
  with a show "extract_frames e v d st1
          = (Inr True, safe_print (Frames_already_exist (path_name v)) st1)
        \<and> length (tool_calls st1) \<le> Suc (length (tool_calls st))"
    by (simp add: extract_frames_skip)
qed

lemma mkdir_parents_two_new:
  assumes "\<not> path_exists fs [a]" "\<not> path_exists fs [a, b]"
  shows "mkdir_parents fs [a, b] = Inr (fs @ [([a], Dir), ([a, b], Dir)])"
proof -
  have 1: "mkdir_parents fs [a] = Inr (fs @ [([a], Dir)])"
    using assms(1) by (subst mkdir_parents.simps) (simp add: os_mkdir_def)
  have 2: "os_mkdir fs [a, b] = Inl FileNotFoundError"
    using assms by (simp add: os_mkdir_def path_exists_def)
  have 3: "mkdir_single (fs @ [([a], Dir)]) [a, b] True = Inr (fs @ [([a], Dir), ([a, b], Dir)])"
    using assms
    by (simp add: mkdir_single_def os_mkdir_def path_exists_def lookup_append_entry
        split: option.splits)
  show ?thesis by (subst mkdir_parents.simps) (simp add: 1 2 3)
qed

lemma ffmpeg_cmd_example:
  "ffmpeg_cmd [''video'', ''001 a.mp4''] [''pdf'', ''001'']
     = [''ffmpeg'', ''-i'', ''video/001 a.mp4'', ''-vf'', ''fps=0.02'', ''pdf/001/frame_%04d.jpg'']"
  by (simp add: ffmpeg_cmd_def str_path_def path_div_def USE_GPU_def)

lemma extract_frames_example:
  "extract_frames \<lparr>ffmpeg_on_path = True, ffmpeg_run = tool\<rparr>
     [''video'', ''001 a.mp4''] [''pdf'', ''001'']
     (start_state [([''video''], Dir), ([''video'', ''001 a.mp4''], File Other)])
   = (Inr True,
      \<lparr>files = tool (ffmpeg_cmd [''video'', ''001 a.mp4''] [''pdf'', ''001''])
                 [([''video''], Dir), ([''video'', ''001 a.mp4''], File Other),
                  ([''pdf''], Dir), ([''pdf'', ''001''], Dir)],
       console = [Extracting_frames ''001 a.mp4'', Frame_extraction_complete ''001 a.mp4''],
       run_log = [],
       tool_calls = [ffmpeg_cmd [''video'', ''001 a.mp4''] [''pdf'', ''001'']],
       open_images = [], pdf_saves = []\<rparr>)"
proof -
  have m: "mkdir_parents [([''video''], Dir), ([''video'', ''001 a.mp4''], File Other)] [''pdf'', ''001'']
      = Inr [([''video''], Dir), ([''video'', ''001 a.mp4''], File Other),
             ([''pdf''], Dir), ([''pdf'', ''001''], Dir)]"
    by (subst mkdir_parents_two_new) (simp_all add: path_exists_def lookup_def)
  show ?thesis
    by (simp add: extract_frames_def m subprocess_run_def fs_eval)
qed

theorem extract_frames_idempotent_witness:
  "extract_frames \<lparr>ffmpeg_on_path = True, ffmpeg_run = one_frame_tool [''pdf'', ''001'']\<rparr>
     [''video'', ''001 a.mp4''] [''pdf'', ''001'']
     (snd (extract_frames \<lparr>ffmpeg_on_path = True, ffmpeg_run = one_frame_tool [''pdf'', ''001'']\<rparr>
        [''video'', ''001 a.mp4''] [''pdf'', ''001'']
        (start_state [([''video''], Dir), ([''video'', ''001 a.mp4''], File Other)])))
   = (Inr True,
      \<lparr>files = [([''video''], Dir), ([''video'', ''001 a.mp4''], File Other),
                ([''pdf''], Dir), ([''pdf'', ''001''], Dir),
                ([''pdf'', ''001'', ''frame_0001.jpg''], File (Img 0))],
       console = [Extracting_frames ''001 a.mp4'', Frame_extraction_complete ''001 a.mp4'',
                  Frames_already_exist ''001 a.mp4''],
       run_log = [],
       tool_calls = [[''ffmpeg'', ''-i'', ''video/001 a.mp4'', ''-vf'', ''fps=0.02'',
                      ''pdf/001/frame_%04d.jpg'']],
       open_images = [], pdf_saves = []\<rparr>)"
proof -
  let ?e = "\<lparr>ffmpeg_on_path = True, ffmpeg_run = one_frame_tool [''pdf'', ''001'']\<rparr>"
  let ?st0 = "start_state [([''video''], Dir), ([''video'', ''001 a.mp4''], File Other)]"
  let ?st1 = "\<lparr>files = [([''video''], Dir), ([''video'', ''001 a.mp4''], File Other),
                ([''pdf''], Dir), ([''pdf'', ''001''], Dir),
                ([''pdf'', ''001'', ''frame_0001.jpg''], File (Img 0))],
       console = [Extracting_frames ''001 a.mp4'', Frame_extraction_complete ''001 a.mp4''],
       run_log = [],
       tool_calls = [[''ffmpeg'', ''-i'', ''video/001 a.mp4'', ''-vf'', ''fps=0.02'',
                      ''pdf/001/frame_%04d.jpg'']],
       open_images = [], pdf_saves = []\<rparr>"
  have first: "extract_frames ?e [''video'', ''001 a.mp4''] [''pdf'', ''001''] ?st0 = (Inr True, ?st1)"
    by (simp add: extract_frames_example ffmpeg_cmd_example one_frame_tool_def path_div_def)
  have frames: "glob (files ?st1) [''pdf'', ''001''] (''frame_'', ''.jpg'') \<noteq> []"
    by (simp add: fs_eval)
  from extract_frames_idempotent[where st = ?st0 and d = "[''pdf'', ''001'']" and e = ?e
      and v = "[''video'', ''001 a.mp4'']" and r = True and ?st1.0 = ?st1] first frames
  have second: "extract_frames ?e [''video'', ''001 a.mp4''] [''pdf'', ''001''] ?st1
      = (Inr True, safe_print (Frames_already_exist (path_name [''video'', ''001 a.mp4''])) ?st1)"
    by blast
  from extract_frames_idempotent[where st = ?st1 and d = "[''pdf'', ''001'']" and e = ?e
      and v = "[''video'', ''001 a.mp4'']"] frames
  have "extract_frames ?e [''video'', ''001 a.mp4''] [''pdf'', ''001''] ?st1
      = (Inr True, safe_print (Frames_already_exist (path_name [''video'', ''001 a.mp4''])) ?st1)"
    by blast
  with first second show ?thesis by (simp add: safe_print_def path_name_def)
qed

text \<open>
  The claim as the specification words it fails: when the tool leaves no frame, the second
  invocation runs it again, so two invocations run the tool twice.
\<close>

theorem extract_frames_runs_tool_twice_counterexample:
  "fst (extract_frames \<lparr>ffmpeg_on_path = True, ffmpeg_run = no_frames_tool\<rparr>
     [''video'', ''001 a.mp4''] [''pdf'', ''001'']
     (start_state [([''video''], Dir), ([''video'', ''001 a.mp4''], File Other)])) = Inr True
   \<and> tool_calls (snd (extract_frames \<lparr>ffmpeg_on_path = True, ffmpeg_run = no_frames_tool\<rparr>
     [''video'', ''001 a.mp4''] [''pdf'', ''001'']
     (snd (extract_frames \<lparr>ffmpeg_on_path = True, ffmpeg_run = no_frames_tool\<rparr>
        [''video'', ''001 a.mp4''] [''pdf'', ''001'']
        (start_state [([''video''], Dir), ([''video'', ''001 a.mp4''], File Other)])))))
     = [[''ffmpeg'', ''-i'', ''video/001 a.mp4'', ''-vf'', ''fps=0.02'', ''pdf/001/frame_%04d.jpg''],
        [''ffmpeg'', ''-i'', ''video/001 a.mp4'', ''-vf'', ''fps=0.02'', ''pdf/001/frame_%04d.jpg'']]"
proof -
  have d: "mkdir_parents [([''video''], Dir), ([''video'', ''001 a.mp4''], File Other),
             ([''pdf''], Dir), ([''pdf'', ''001''], Dir)] [''pdf'', ''001'']
      = Inr [([''video''], Dir), ([''video'', ''001 a.mp4''], File Other),
             ([''pdf''], Dir), ([''pdf'', ''001''], Dir)]"
    by (rule mkdir_parents_existing) (simp add: is_dir_def lookup_def)
  show ?thesis
    by (simp add: extract_frames_example no_frames_tool_def)
       (simp add: extract_frames_def d subprocess_run_def fs_eval ffmpeg_cmd_example
          no_frames_tool_def)
qed

section \<open>The frame directory is made first\<close>











section \<open>A run that finds no video\<close>

lemma mkdir_single_output_dir:
  assumes "\<And>c. lookup fs OUTPUT_DIR \<noteq> Some (File c)"
  shows "mkdir_single fs OUTPUT_DIR True
     = Inr (if path_exists fs OUTPUT_DIR then fs else fs @ [(OUTPUT_DIR, Dir)])"
proof (cases "path_exists fs OUTPUT_DIR")
  case True
  with assms have "is_dir fs OUTPUT_DIR"
    by (cases "lookup fs OUTPUT_DIR") (auto simp: path_exists_def is_dir_def intro: node.exhaust)
  with True show ?thesis by (simp add: mkdir_single_existing)
next
  case False
  then show ?thesis
    by (simp add: mkdir_single_def os_mkdir_def OUTPUT_DIR_def BASE_DIR_def path_div_def)
qed

lemma glob_video_dir_append_output_dir:
  "glob (fs @ [(OUTPUT_DIR, Dir)]) VIDEO_DIR pat = glob fs VIDEO_DIR pat"
  by (simp add: glob_def scandir_def is_dir_def lookup_append_entry OUTPUT_DIR_def VIDEO_DIR_def
      BASE_DIR_def path_div_def split: option.splits)

lemma discover_videos_append_output_dir:
  "discover_videos (fs @ [(OUTPUT_DIR, Dir)]) = discover_videos fs"
  by (simp add: discover_videos_def glob_video_dir_append_output_dir)

text \<open>
  Claim C4, as the code has it. When the tool is installed, the input directory exists,
  no entry of it has a recognised video extension, and \<^verbatim>\<open>pdf\<close> is not a regular file,
  \<open>main\<close> prints that no video files were found and returns. Its one side effect on the
  files is that the output directory \<^verbatim>\<open>pdf\<close> exists afterwards: it is made when it was
  missing. Nothing else is created or changed, nothing is run, logged, opened or saved.
\<close>

theorem main_no_videos:
  assumes "ffmpeg_on_path e"
    and "path_exists (files st) VIDEO_DIR"
    and "discover_videos (files st) = []"
    and "\<forall>c. lookup (files st) OUTPUT_DIR \<noteq> Some (File c)"
  shows "main e st =
    (Inr (), st\<lparr>files := (if path_exists (files st) OUTPUT_DIR then files st
                            else files st @ [(OUTPUT_DIR, Dir)]),
                console := console st @ [No_video_files_found]\<rparr>)"
proof -
  have m: "mkdir_single (files st) OUTPUT_DIR True
     = Inr (if path_exists (files st) OUTPUT_DIR then files st else files st @ [(OUTPUT_DIR, Dir)])"
    using assms(4) by (intro mkdir_single_output_dir) simp
  have d: "discover_videos (if path_exists (files st) OUTPUT_DIR then files st
                            else files st @ [(OUTPUT_DIR, Dir)]) = []"
    using assms(3) by (simp add: discover_videos_append_output_dir)
  show ?thesis
    using assms(1,2) d
    by (simp add: main_def ffmpeg_exists_def m Let_def safe_print_def)
qed

lemma discover_videos_example:
  "discover_videos [([''video''], Dir), ([''video'', ''notes.txt''], File Other)] = []"
  by (simp add: discover_videos_def fs_eval VIDEO_DIR_def BASE_DIR_def path_div_def
      sorted_by_key_def)

theorem main_no_videos_witness:
  "main \<lparr>ffmpeg_on_path = True, ffmpeg_run = no_frames_tool\<rparr>
     (start_state [([''video''], Dir), ([''video'', ''notes.txt''], File Other), ([''pdf''], Dir)])
   = (Inr (),
      \<lparr>files = [([''video''], Dir), ([''video'', ''notes.txt''], File Other), ([''pdf''], Dir)],
       console = [No_video_files_found], run_log = [], tool_calls = [], open_images = [],
       pdf_saves = []\<rparr>)"
proof -
  let ?fs = "[([''video''], Dir), ([''video'', ''notes.txt''], File Other), ([''pdf''], Dir)]"
  let ?e = "\<lparr>ffmpeg_on_path = True, ffmpeg_run = no_frames_tool\<rparr>"
  have h1: "ffmpeg_on_path ?e" by simp
  have h2: "path_exists (files (start_state ?fs)) VIDEO_DIR"
    by (simp add: fs_eval VIDEO_DIR_def BASE_DIR_def path_div_def)
  have h3: "discover_videos (files (start_state ?fs)) = []"
    using discover_videos_append_output_dir[of "[([''video''], Dir), ([''video'', ''notes.txt''], File Other)]"]
    by (simp add: discover_videos_example start_state_def OUTPUT_DIR_def BASE_DIR_def path_div_def)
  have h4: "\<forall>c. lookup (files (start_state ?fs)) OUTPUT_DIR \<noteq> Some (File c)"
    by (simp add: fs_eval OUTPUT_DIR_def BASE_DIR_def path_div_def)
  have ex: "path_exists (files (start_state ?fs)) OUTPUT_DIR"
    by (simp add: fs_eval OUTPUT_DIR_def BASE_DIR_def path_div_def)
  from main_no_videos[OF h1 h2 h3 h4] ex
  show ?thesis by (simp add: start_state_def)
qed

text \<open>
  The claim as the specification words it fails: the output directory is made before the
  videos are looked for, so a run that finds no video has created \<^verbatim>\<open>pdf\<close>.
\<close>

theorem main_no_videos_creates_output_dir_counterexample:
  "discover_videos [([''video''], Dir), ([''video'', ''notes.txt''], File Other)] = []
   \<and> main \<lparr>ffmpeg_on_path = True, ffmpeg_run = no_frames_tool\<rparr>
       (start_state [([''video''], Dir), ([''video'', ''notes.txt''], File Other)])
     = (Inr (),
        \<lparr>files = [([''video''], Dir), ([''video'', ''notes.txt''], File Other), ([''pdf''], Dir)],
         console = [No_video_files_found], run_log = [], tool_calls = [], open_images = [],
         pdf_saves = []\<rparr>)
   \<and> \<not> path_exists [([''video''], Dir), ([''video'', ''notes.txt''], File Other)] [''pdf'']
   \<and> is_dir [([''video''], Dir), ([''video'', ''notes.txt''], File Other), ([''pdf''], Dir)] [''pdf'']"
proof -
  let ?fs = "[([''video''], Dir), ([''video'', ''notes.txt''], File Other)]"
  have m: "mkdir_single ?fs OUTPUT_DIR True = Inr (?fs @ [(OUTPUT_DIR, Dir)])"
    by (simp add: mkdir_single_def os_mkdir_def OUTPUT_DIR_def BASE_DIR_def path_div_def
        path_exists_def lookup_def)
  have d: "discover_videos (?fs @ [(OUTPUT_DIR, Dir)]) = []"
    by (simp only: discover_videos_append_output_dir discover_videos_example)
  have "main \<lparr>ffmpeg_on_path = True, ffmpeg_run = no_frames_tool\<rparr> (start_state ?fs)
     = (Inr (),
        \<lparr>files = ?fs @ [(OUTPUT_DIR, Dir)],
         console = [No_video_files_found], run_log = [], tool_calls = [], open_images = [],
         pdf_saves = []\<rparr>)"
    using d
    by (simp add: main_def ffmpeg_exists_def start_state_def m safe_print_def
        path_exists_def lookup_def VIDEO_DIR_def BASE_DIR_def path_div_def)
  then show ?thesis
    by (simp add: discover_videos_example OUTPUT_DIR_def BASE_DIR_def path_div_def
        path_exists_def is_dir_def lookup_def)
qed

section \<open>Merging\<close>

lemma takeWhile_take_stop:
  "i < length xs \<Longrightarrow> \<not> P (xs ! i) \<Longrightarrow> takeWhile P (take i xs) = takeWhile P xs"
proof (induction xs arbitrary: i)
  case Nil
  then show ?case by simp
next
  case (Cons x xs)
  then show ?case by (cases i) auto
qed

lemma rfind_dot_is_dot:
  assumes "rfind_dot name = Some i"
  shows "i < length name \<and> name ! i = CHR ''.''"
proof -
  let ?k = "length (takeWhile (\<lambda>c. c \<noteq> CHR ''.'') (rev name))"
  from assms have dot: "CHR ''.'' \<in> set name" and i: "i = length name - 1 - ?k"
    by (auto simp: rfind_dot_def split: if_splits)
  have "takeWhile (\<lambda>c. c \<noteq> CHR ''.'') (rev name) \<noteq> rev name"
    using dot by (auto simp: takeWhile_eq_all_conv)
  then have k: "?k < length (rev name)"
    using length_takeWhile_le[of "\<lambda>c. c \<noteq> CHR ''.''" "rev name"]
    by (metis le_neq_implies_less takeWhile_eq_take take_all_iff order_refl)
  then have "rev name ! ?k = CHR ''.''"
    using nth_length_takeWhile[of "\<lambda>c. c \<noteq> CHR ''.''" "rev name"] by simp
  moreover have "rev name ! ?k = name ! (length name - Suc ?k)"
    using k by (simp add: rev_nth)
  ultimately show ?thesis using k i by simp
qed

lemma stem_key_is_name_key: "extract_number (path_stem f) = extract_number (path_name f)"
proof (cases "rfind_dot (path_name f)")
  case None
  then show ?thesis by (simp add: path_stem_def)
next
  case (Some i)
  from rfind_dot_is_dot[OF Some] have "i < length (path_name f)" "\<not> is_digit (path_name f ! i)"
    by (simp_all add: is_digit_def)
  then have "takeWhile is_digit (take i (path_name f)) = takeWhile is_digit (path_name f)"
    by (rule takeWhile_take_stop)
  with Some show ?thesis
    by (simp add: path_stem_def extract_number_def re_match_digits_def Let_def)
qed

lemma sorted_pdfs_by_name:
  "sorted_pdfs fs = sorted_by_key (\<lambda>f. extract_number (path_name f)) (glob fs OUTPUT_DIR ([], ''.pdf''))"
  by (simp add: sorted_pdfs_def stem_key_is_name_key)

lemma append_all_readable:
  assumes "\<forall>p\<in>set ps. \<exists>pages. lookup (files st) p = Some (File (Pdf pages))"
  shows "append_all ps writer st
     = (Inr (writer @ concat (map (pages_of (files st)) ps)),
        st\<lparr>console := console st @ map (\<lambda>p. Adding (path_name p)) ps\<rparr>)"
  using assms
proof (induction ps arbitrary: writer st)
  case Nil
  then show ?case by simp
next
  case (Cons p ps)
  from Cons.prems obtain pages where p: "lookup (files st) p = Some (File (Pdf pages))"
    by auto
  let ?st1 = "safe_print (Adding (path_name p)) st"
  have "\<forall>q\<in>set ps. \<exists>pages. lookup (files ?st1) q = Some (File (Pdf pages))"
    using Cons.prems by simp
  from Cons.IH[OF this, of "writer @ pages"] p
  show ?case by (simp add: pdf_reader_def pages_of_def Let_def safe_print_def)
qed

lemma write_merged:
  assumes "\<not> path_exists fs merged_pdf" "is_dir fs OUTPUT_DIR"
  shows "write_file fs merged_pdf c = Inr (AList.update merged_pdf (File c) fs)"
  using assms
  by (simp add: write_file_def path_exists_def is_dir_def merged_pdf_def path_div_def)

lemma merge_all_pdfs_skip:
  "path_exists (files st) merged_pdf \<Longrightarrow>
   merge_all_pdfs st = (Inr (), safe_print Merged_PDF_already_exists st)"
  by (simp add: merge_all_pdfs_def)

lemma merge_all_pdfs_merges:
  assumes "\<not> path_exists (files st) merged_pdf" "is_dir (files st) OUTPUT_DIR"
    and "\<forall>p\<in>set (glob (files st) OUTPUT_DIR ([], ''.pdf'')).
           \<exists>pages. lookup (files st) p = Some (File (Pdf pages))"
  shows "merge_all_pdfs st =
    (Inr (),
     st\<lparr>files := AList.update merged_pdf
            (File (Pdf (concat (map (pages_of (files st)) (sorted_pdfs (files st)))))) (files st),
        console := console st @ [Merging_PDFs]
            @ map (\<lambda>p. Adding (path_name p)) (sorted_pdfs (files st))
            @ [Final_merged_PDF_created merged_pdf]\<rparr>)"
proof -
  let ?st1 = "safe_print Merging_PDFs st"
  have "set (sorted_pdfs (files st)) = set (glob (files st) OUTPUT_DIR ([], ''.pdf''))"
    by (simp add: sorted_pdfs_def sorted_by_key_def)
  with assms(3) have "\<forall>p\<in>set (sorted_pdfs (files st)).
      \<exists>pages. lookup (files ?st1) p = Some (File (Pdf pages))"
    by simp
  from append_all_readable[OF this, of "[]"]
  have a: "append_all (sorted_pdfs (files st)) [] ?st1
     = (Inr (concat (map (pages_of (files st)) (sorted_pdfs (files st)))),
        ?st1\<lparr>console := console ?st1 @ map (\<lambda>p. Adding (path_name p)) (sorted_pdfs (files st))\<rparr>)"
    by simp
  show ?thesis
    using assms(1,2)
    by (simp add: merge_all_pdfs_def Let_def a write_merged)
qed


text \<open>
  Claim C5, as the code has it. When the merged file exists, \<open>merge_all_pdfs\<close> prints
  that it skips and changes nothing. Otherwise (the output directory being there and
  every \<^verbatim>\<open>*.pdf\<close> entry in it a readable PDF) it returns having written to the merged
  path the pages of all these PDFs, appended in the order \<open>sorted_pdfs\<close>: a
  rearrangement of the entries, ascending in the leading-number key of the name, the key
  used for the videos. In that order a PDF whose name has no leading number comes after
  every PDF whose leading number is below 999999999.
\<close>

theorem merge_all_pdfs_merges_in_key_order:
  "(path_exists (files st) merged_pdf \<longrightarrow>
      merge_all_pdfs st = (Inr (), safe_print Merged_PDF_already_exists st))
   \<and> (\<not> path_exists (files st) merged_pdf \<and> is_dir (files st) OUTPUT_DIR
        \<and> (\<forall>p\<in>set (glob (files st) OUTPUT_DIR ([], ''.pdf'')).
              \<exists>pages. lookup (files st) p = Some (File (Pdf pages))) \<longrightarrow>
        fst (merge_all_pdfs st) = Inr ()
        \<and> files (snd (merge_all_pdfs st))
            = AList.update merged_pdf
                (File (Pdf (concat (map (pages_of (files st)) (sorted_pdfs (files st))))))
                (files st))
   \<and> mset (sorted_pdfs (files st)) = mset (glob (files st) OUTPUT_DIR ([], ''.pdf''))
   \<and> sorted (map (\<lambda>f. extract_number (path_name f)) (sorted_pdfs (files st)))
   \<and> (i < length (sorted_pdfs (files st)) \<and> j < length (sorted_pdfs (files st))
        \<and> starts_with_digit (path_name (sorted_pdfs (files st) ! i))
        \<and> extract_number (path_name (sorted_pdfs (files st) ! i)) < 999999999
        \<and> \<not> starts_with_digit (path_name (sorted_pdfs (files st) ! j)) \<longrightarrow>
        i < j)"
proof (intro conjI)
  show "path_exists (files st) merged_pdf \<longrightarrow>
      merge_all_pdfs st = (Inr (), safe_print Merged_PDF_already_exists st)"
    by (simp add: merge_all_pdfs_skip)
next
  show "\<not> path_exists (files st) merged_pdf \<and> is_dir (files st) OUTPUT_DIR
        \<and> (\<forall>p\<in>set (glob (files st) OUTPUT_DIR ([], ''.pdf'')).
              \<exists>pages. lookup (files st) p = Some (File (Pdf pages))) \<longrightarrow>
        fst (merge_all_pdfs st) = Inr ()
        \<and> files (snd (merge_all_pdfs st))
            = AList.update merged_pdf
                (File (Pdf (concat (map (pages_of (files st)) (sorted_pdfs (files st))))))
                (files st)"
    by (simp add: merge_all_pdfs_merges)
next
  show "mset (sorted_pdfs (files st)) = mset (glob (files st) OUTPUT_DIR ([], ''.pdf''))"
    by (simp add: sorted_pdfs_def sorted_by_key_mset)
next
  show "sorted (map (\<lambda>f. extract_number (path_name f)) (sorted_pdfs (files st)))"
    by (simp only: sorted_pdfs_by_name sorted_by_key_sorted)
next
  let ?g = "glob (files st) OUTPUT_DIR ([], ''.pdf'')"
  let ?k = "\<lambda>f. extract_number (path_name f)"
  show "i < length (sorted_pdfs (files st)) \<and> j < length (sorted_pdfs (files st))
        \<and> starts_with_digit (path_name (sorted_pdfs (files st) ! i))
        \<and> extract_number (path_name (sorted_pdfs (files st) ! i)) < 999999999
        \<and> \<not> starts_with_digit (path_name (sorted_pdfs (files st) ! j)) \<longrightarrow>
        i < j"
  proof
    assume a: "i < length (sorted_pdfs (files st)) \<and> j < length (sorted_pdfs (files st))
        \<and> starts_with_digit (path_name (sorted_pdfs (files st) ! i))
        \<and> extract_number (path_name (sorted_pdfs (files st) ! i)) < 999999999
        \<and> \<not> starts_with_digit (path_name (sorted_pdfs (files st) ! j))"
    then have "extract_number (path_name (sorted_pdfs (files st) ! j)) = 999999999"
      by (simp add: extract_number_sentinel)
    with a have "i < length ?g" "j < length ?g"
      "?k (sorted_by_key ?k ?g ! i) < ?k (sorted_by_key ?k ?g ! j)"
      by (simp_all add: sorted_pdfs_by_name sorted_by_key_length)
    then show "i < j" by (rule sorted_by_key_order)
  qed
qed


lemmas dir_eval = OUTPUT_DIR_def VIDEO_DIR_def BASE_DIR_def path_div_def merged_pdf_def

lemma sorted_pdfs_example:
  "sorted_pdfs [([''pdf''], Dir), ([''pdf'', ''002.pdf''], File (Pdf [20, 21])),
                ([''pdf'', ''notes.pdf''], File (Pdf [9])), ([''pdf'', ''001.pdf''], File (Pdf [10]))]
   = [[''pdf'', ''001.pdf''], [''pdf'', ''002.pdf''], [''pdf'', ''notes.pdf'']]"
  by (simp add: sorted_pdfs_by_name fs_eval dir_eval key_eval)

lemma sorted_pdfs_large_number:
  "sorted_pdfs [([''pdf''], Dir), ([''pdf'', ''1000000000.pdf''], File (Pdf [11])),
                ([''pdf'', ''notes.pdf''], File (Pdf [22]))]
   = [[''pdf'', ''notes.pdf''], [''pdf'', ''1000000000.pdf'']]"
  by (simp add: sorted_pdfs_by_name fs_eval dir_eval key_eval)

theorem merge_all_pdfs_merges_in_key_order_witness:
  "merge_all_pdfs (start_state [([''pdf''], Dir), ([''pdf'', ''final_merged.pdf''], File (Pdf [5]))])
     = (Inr (),
        \<lparr>files = [([''pdf''], Dir), ([''pdf'', ''final_merged.pdf''], File (Pdf [5]))],
         console = [Merged_PDF_already_exists], run_log = [], tool_calls = [],
         open_images = [], pdf_saves = []\<rparr>)
   \<and> fst (merge_all_pdfs (start_state
         [([''pdf''], Dir), ([''pdf'', ''002.pdf''], File (Pdf [20, 21])),
          ([''pdf'', ''notes.pdf''], File (Pdf [9])), ([''pdf'', ''001.pdf''], File (Pdf [10]))]))
       = Inr ()
   \<and> files (snd (merge_all_pdfs (start_state
         [([''pdf''], Dir), ([''pdf'', ''002.pdf''], File (Pdf [20, 21])),
          ([''pdf'', ''notes.pdf''], File (Pdf [9])), ([''pdf'', ''001.pdf''], File (Pdf [10]))])))
       = [([''pdf''], Dir), ([''pdf'', ''002.pdf''], File (Pdf [20, 21])),
          ([''pdf'', ''notes.pdf''], File (Pdf [9])), ([''pdf'', ''001.pdf''], File (Pdf [10])),
          ([''pdf'', ''final_merged.pdf''], File (Pdf [10, 20, 21, 9]))]
   \<and> (0::nat) < 2"
proof -
  let ?fsE = "[([''pdf''], Dir), ([''pdf'', ''final_merged.pdf''], File (Pdf [5]))]"
  let ?fsW = "[([''pdf''], Dir), ([''pdf'', ''002.pdf''], File (Pdf [20, 21])),
          ([''pdf'', ''notes.pdf''], File (Pdf [9])), ([''pdf'', ''001.pdf''], File (Pdf [10]))]"
  have e: "path_exists (files (start_state ?fsE)) merged_pdf"
    by (simp add: fs_eval dir_eval)
  from merge_all_pdfs_merges_in_key_order[of "start_state ?fsE"] e
  have skip: "merge_all_pdfs (start_state ?fsE)
      = (Inr (), safe_print Merged_PDF_already_exists (start_state ?fsE))"
    by blast
  have h: "\<not> path_exists (files (start_state ?fsW)) merged_pdf
      \<and> is_dir (files (start_state ?fsW)) OUTPUT_DIR
      \<and> (\<forall>p\<in>set (glob (files (start_state ?fsW)) OUTPUT_DIR ([], ''.pdf'')).
              \<exists>pages. lookup (files (start_state ?fsW)) p = Some (File (Pdf pages)))"
    by (simp add: fs_eval dir_eval)
  have o: "sorted_pdfs (files (start_state ?fsW))
      = [[''pdf'', ''001.pdf''], [''pdf'', ''002.pdf''], [''pdf'', ''notes.pdf'']]"
    by (simp add: start_state_def sorted_pdfs_example)
  have h5: "0 < length (sorted_pdfs (files (start_state ?fsW)))
      \<and> 2 < length (sorted_pdfs (files (start_state ?fsW)))
      \<and> starts_with_digit (path_name (sorted_pdfs (files (start_state ?fsW)) ! 0))
      \<and> extract_number (path_name (sorted_pdfs (files (start_state ?fsW)) ! 0)) < 999999999
      \<and> \<not> starts_with_digit (path_name (sorted_pdfs (files (start_state ?fsW)) ! 2))"
    unfolding o by (simp add: path_name_def key_eval)
  from merge_all_pdfs_merges_in_key_order[of "start_state ?fsW" 0 2] h h5
  have "fst (merge_all_pdfs (start_state ?fsW)) = Inr ()
      \<and> files (snd (merge_all_pdfs (start_state ?fsW)))
          = AList.update merged_pdf
              (File (Pdf (concat (map (pages_of (files (start_state ?fsW)))
                 (sorted_pdfs (files (start_state ?fsW)))))))
              (files (start_state ?fsW))
      \<and> (0::nat) < 2"
    by blast
  then have "fst (merge_all_pdfs (start_state ?fsW)) = Inr ()
      \<and> files (snd (merge_all_pdfs (start_state ?fsW)))
          = ?fsW @ [([''pdf'', ''final_merged.pdf''], File (Pdf [10, 20, 21, 9]))]
      \<and> (0::nat) < 2"
    unfolding o by (simp add: pages_of_def pdf_reader_def fs_eval dir_eval)
  with skip show ?thesis by (simp add: start_state_def safe_print_def)
qed

text \<open>
  The claim as the specification words it fails: a PDF whose name has no leading number
  is merged before a PDF whose leading number exceeds 999999999.
\<close>

theorem merge_all_pdfs_unnumbered_first_counterexample:
  "starts_with_digit ''1000000000.pdf'' \<and> \<not> starts_with_digit ''notes.pdf''
   \<and> merge_all_pdfs (start_state
        [([''pdf''], Dir), ([''pdf'', ''1000000000.pdf''], File (Pdf [11])),
         ([''pdf'', ''notes.pdf''], File (Pdf [22]))])
     = (Inr (),
        \<lparr>files = [([''pdf''], Dir), ([''pdf'', ''1000000000.pdf''], File (Pdf [11])),
                  ([''pdf'', ''notes.pdf''], File (Pdf [22])),
                  ([''pdf'', ''final_merged.pdf''], File (Pdf [22, 11]))],
         console = [Merging_PDFs, Adding ''notes.pdf'', Adding ''1000000000.pdf'',
                    Final_merged_PDF_created [''pdf'', ''final_merged.pdf'']],
         run_log = [], tool_calls = [], open_images = [], pdf_saves = []\<rparr>)"
proof -
  let ?fs = "[([''pdf''], Dir), ([''pdf'', ''1000000000.pdf''], File (Pdf [11])),
         ([''pdf'', ''notes.pdf''], File (Pdf [22]))]"
  have h1: "\<not> path_exists (files (start_state ?fs)) merged_pdf"
    and h2: "is_dir (files (start_state ?fs)) OUTPUT_DIR"
    and h3: "\<forall>p\<in>set (glob (files (start_state ?fs)) OUTPUT_DIR ([], ''.pdf'')).
              \<exists>pages. lookup (files (start_state ?fs)) p = Some (File (Pdf pages))"
    by (simp_all add: fs_eval dir_eval)
  have o: "sorted_pdfs (files (start_state ?fs))
      = [[''pdf'', ''notes.pdf''], [''pdf'', ''1000000000.pdf'']]"
    by (simp add: start_state_def sorted_pdfs_large_number)
  have "merge_all_pdfs (start_state ?fs)
     = (Inr (),
        \<lparr>files = ?fs @ [([''pdf'', ''final_merged.pdf''], File (Pdf [22, 11]))],
         console = [Merging_PDFs, Adding ''notes.pdf'', Adding ''1000000000.pdf'',
                    Final_merged_PDF_created [''pdf'', ''final_merged.pdf'']],
         run_log = [], tool_calls = [], open_images = [], pdf_saves = []\<rparr>)"
    unfolding merge_all_pdfs_merges[OF h1 h2 h3] o
    by (simp add: pages_of_def pdf_reader_def fs_eval dir_eval)
  then show ?thesis by (simp add: starts_with_digit_def is_digit_def)
qed

section \<open>Open images\<close>

lemma image_open_opened:
  "image_open p st = (Inr i, st') \<Longrightarrow> open_images st' = open_images st @ [p]"
  by (auto simp: image_open_def split: option.splits node.splits content.splits)

lemma open_all_opened:
  "open_all ps st = (Inr imgs, st') \<Longrightarrow> open_images st' = open_images st @ ps"
proof (induction ps arbitrary: st imgs st')
  case Nil
  then show ?case by simp
next
  case (Cons p ps)
  from Cons.prems obtain i st1 imgs' where o1: "image_open p st = (Inr i, st1)"
    and o2: "open_all ps st1 = (Inr imgs', st')"
    by (auto split: prod.splits sum.splits)
  from image_open_opened[OF o1] Cons.IH[OF o2] show ?case by simp
qed

lemma mset_fold_remove1:
  "mset ps \<subseteq># mset xs \<Longrightarrow> mset (fold remove1 ps xs) = mset xs - mset ps"
proof (induction ps arbitrary: xs)
  case Nil
  then show ?case by simp
next
  case (Cons p ps)
  from Cons.prems have "p \<in># mset xs" by (simp add: insert_subset_eq_iff)
  moreover from Cons.prems have "mset ps \<subseteq># mset (remove1 p xs)"
    by (simp add: insert_subset_eq_iff)
  ultimately show ?case using Cons.IH[of "remove1 p xs"] by simp
qed

text \<open>When \<open>images_to_pdf\<close> returns, the images it opened are closed again.\<close>

lemma images_to_pdf_returned_closes:
  assumes "images_to_pdf image_folder pdf_path st = (Inr r, st1)"
  shows "mset (open_images st1) = mset (open_images st)"
proof -
  consider (skip) "path_exists (files st) pdf_path"
    | (empty) "\<not> path_exists (files st) pdf_path" "glob (files st) image_folder ([], ''.jpg'') = []"
    | (assemble) "\<not> path_exists (files st) pdf_path" "glob (files st) image_folder ([], ''.jpg'') \<noteq> []"
    by blast
  then show ?thesis
  proof cases
    case skip
    with assms show ?thesis by (auto simp: images_to_pdf_skip)
  next
    case empty
    with assms show ?thesis by (auto simp: images_to_pdf_empty)
  next
    case assemble
    let ?images = "sort (glob (files st) image_folder ([], ''.jpg''))"
    let ?st1 = "safe_print (Creating_PDF (path_name pdf_path)) st"
    have ne: "?images \<noteq> []" using assemble(2) by (metis length_sort length_0_conv)
    obtain r2 st2 where o2: "image_open (hd ?images) ?st1 = (r2, st2)"
      by (cases "image_open (hd ?images) ?st1")
    obtain r3 st3 where o3: "open_all (tl ?images) st2 = (r3, st3)"
      by (cases "open_all (tl ?images) st2")
    from assemble(1) assms ne o2 obtain first where r2: "r2 = Inr first"
      by (cases r2) (auto simp: images_to_pdf_def Let_def)
    from assemble(1) assms ne o2 o3 r2 obtain others where r3: "r3 = Inr others"
      by (cases r3) (auto simp: images_to_pdf_def Let_def)
    obtain r4 st4 where o4: "image_save pdf_path (first # others) st3 = (r4, st4)"
      by (cases "image_save pdf_path (first # others) st3")
    from assemble(1) assms ne o2 o3 o4 r2 r3 have r4: "r4 = Inr ()"
      by (cases r4) (auto simp: images_to_pdf_def Let_def)
    from o2 r2 have "open_images st2 = open_images st @ [hd ?images]"
      using image_open_opened by fastforce
    with o3 r3 have "open_images st3 = open_images st @ [hd ?images] @ tl ?images"
      using open_all_opened by fastforce
    with ne have "open_images st3 = open_images st @ ?images" by simp
    moreover from o4 have "open_images st4 = open_images st3"
      by (auto simp: image_save_def Let_def split: sum.splits)
    ultimately have o: "open_images st4 = open_images st @ ?images" by simp
    from assemble(1) assms ne o2 o3 o4 r2 r3 r4
    have st1: "st1 = safe_print (PDF_created (path_name pdf_path))
        (fold image_close (tl ?images) (image_close (hd ?images) st4))"
      by (auto simp: images_to_pdf_def Let_def)
    have "fold remove1 (tl ?images) (remove1 (hd ?images) (open_images st4))
        = fold remove1 ?images (open_images st4)"
      using ne by (cases ?images) simp_all
    then have "open_images st1 = fold remove1 ?images (open_images st @ ?images)"
      using st1 o by (simp add: fold_image_close image_close_def)
    then show ?thesis by (simp add: mset_fold_remove1)
  qed
qed

text \<open>
  Claim C9 fails on the code. The images are closed by statements that follow the save,
  with nothing that runs them when an exception passes: when the directory of the target
  PDF is missing, the save raises and both opened images stay open; when the second frame
  is not a readable image, opening it raises and the first image stays open.
\<close>

theorem images_to_pdf_leaves_images_open:
  "images_to_pdf [''frames''] [''out'', ''001.pdf'']
     (start_state [([''frames''], Dir), ([''frames'', ''frame_0001.jpg''], File (Img 11)),
                   ([''frames'', ''frame_0002.jpg''], File (Img 12))])
   = (Inl FileNotFoundError,
      \<lparr>files = [([''frames''], Dir), ([''frames'', ''frame_0001.jpg''], File (Img 11)),
                ([''frames'', ''frame_0002.jpg''], File (Img 12))],
       console = [Creating_PDF ''001.pdf''], run_log = [], tool_calls = [],
       open_images = [[''frames'', ''frame_0001.jpg''], [''frames'', ''frame_0002.jpg'']],
       pdf_saves = [[''out'', ''001.pdf'']]\<rparr>)
   \<and> images_to_pdf [''pdf'', ''001''] [''pdf'', ''001.pdf'']
     (start_state [([''pdf''], Dir), ([''pdf'', ''001''], Dir),
                   ([''pdf'', ''001'', ''frame_0001.jpg''], File (Img 11)),
                   ([''pdf'', ''001'', ''frame_0002.jpg''], File Other)])
   = (Inl UnidentifiedImageError,
      \<lparr>files = [([''pdf''], Dir), ([''pdf'', ''001''], Dir),
                ([''pdf'', ''001'', ''frame_0001.jpg''], File (Img 11)),
                ([''pdf'', ''001'', ''frame_0002.jpg''], File Other)],
       console = [Creating_PDF ''001.pdf''], run_log = [], tool_calls = [],
       open_images = [[''pdf'', ''001'', ''frame_0001.jpg'']],
       pdf_saves = []\<rparr>)"
proof -
  have s1: "sort [[''frames'', ''frame_0001.jpg''], [''frames'', ''frame_0002.jpg'']]
      = [[''frames'', ''frame_0001.jpg''], [''frames'', ''frame_0002.jpg'']]"
    by (simp add: less_eq_char_def less_char_def)
  have s2: "sort [[''pdf'', ''001'', ''frame_0001.jpg''], [''pdf'', ''001'', ''frame_0002.jpg'']]
      = [[''pdf'', ''001'', ''frame_0001.jpg''], [''pdf'', ''001'', ''frame_0002.jpg'']]"
    by (simp add: less_eq_char_def less_char_def)
  have g1: "glob (files (start_state [([''frames''], Dir),
        ([''frames'', ''frame_0001.jpg''], File (Img 11)),
        ([''frames'', ''frame_0002.jpg''], File (Img 12))])) [''frames''] ([], ''.jpg'')
      = [[''frames'', ''frame_0001.jpg''], [''frames'', ''frame_0002.jpg'']]"
    by (simp add: fs_eval)
  have g2: "glob (files (start_state [([''pdf''], Dir), ([''pdf'', ''001''], Dir),
        ([''pdf'', ''001'', ''frame_0001.jpg''], File (Img 11)),
        ([''pdf'', ''001'', ''frame_0002.jpg''], File Other)])) [''pdf'', ''001''] ([], ''.jpg'')
      = [[''pdf'', ''001'', ''frame_0001.jpg''], [''pdf'', ''001'', ''frame_0002.jpg'']]"
    by (simp add: fs_eval)
  have a: "images_to_pdf [''frames''] [''out'', ''001.pdf'']
     (start_state [([''frames''], Dir), ([''frames'', ''frame_0001.jpg''], File (Img 11)),
                   ([''frames'', ''frame_0002.jpg''], File (Img 12))])
   = (Inl FileNotFoundError,
      \<lparr>files = [([''frames''], Dir), ([''frames'', ''frame_0001.jpg''], File (Img 11)),
                ([''frames'', ''frame_0002.jpg''], File (Img 12))],
       console = [Creating_PDF ''001.pdf''], run_log = [], tool_calls = [],
       open_images = [[''frames'', ''frame_0001.jpg''], [''frames'', ''frame_0002.jpg'']],
       pdf_saves = [[''out'', ''001.pdf'']]\<rparr>)"
    unfolding images_to_pdf_def g1 s1
    by (simp add: image_open_def image_save_def write_file_def lookup_def path_exists_def
        path_name_def start_state_def safe_print_def)
  have b: "images_to_pdf [''pdf'', ''001''] [''pdf'', ''001.pdf'']
     (start_state [([''pdf''], Dir), ([''pdf'', ''001''], Dir),
                   ([''pdf'', ''001'', ''frame_0001.jpg''], File (Img 11)),
                   ([''pdf'', ''001'', ''frame_0002.jpg''], File Other)])
   = (Inl UnidentifiedImageError,
      \<lparr>files = [([''pdf''], Dir), ([''pdf'', ''001''], Dir),
                ([''pdf'', ''001'', ''frame_0001.jpg''], File (Img 11)),
                ([''pdf'', ''001'', ''frame_0002.jpg''], File Other)],
       console = [Creating_PDF ''001.pdf''], run_log = [], tool_calls = [],
       open_images = [[''pdf'', ''001'', ''frame_0001.jpg'']],
       pdf_saves = []\<rparr>)"
    unfolding images_to_pdf_def g2 s2
    by (simp add: image_open_def image_save_def write_file_def lookup_def path_exists_def
        path_name_def start_state_def safe_print_def)
  from a b show ?thesis by (rule conjI)
qed


section \<open>The flag of a video\<close>

text \<open>
  \<open>process_video\<close> returns the success flag exactly when none of the three stages
  raised; what \<open>images_to_pdf\<close> returned plays no part. A raised exception is printed
  and logged.
\<close>

lemma process_video_flag:
  "fst (process_video e v st) \<longleftrightarrow>
     (\<exists>r1 st1 r2 st2 st3.
        extract_frames e v (img_dir_of v) (safe_print (Processing (path_name v)) st) = (Inr r1, st1)
        \<and> images_to_pdf (img_dir_of v) (pdf_path_of v) st1 = (Inr r2, st2)
        \<and> delete_frames (img_dir_of v) st2 = (Inr (), st3))"
  by (auto simp: process_video_def on_exception_def Let_def split: prod.splits sum.splits)

lemma process_video_failure_logged:
  "\<not> fst (process_video e v st) \<Longrightarrow>
   \<exists>err st'. snd (process_video e v st)
      = logging_error err (safe_print (ERROR_processing (path_name v) err) st')"
  by (auto simp: process_video_def on_exception_def Let_def split: prod.splits sum.splits)

lemma delete_frames_nothing_to_delete:
  "glob (files st) folder ([], ''.jpg'') = [] \<Longrightarrow> fst (delete_frames folder st) = Inr ()"
  by (simp add: delete_frames_def split: sum.splits)

lemma process_video_ignores_no_frames:
  assumes "extract_frames e v (img_dir_of v) (safe_print (Processing (path_name v)) st) = (Inr r1, st1)"
    and "\<not> path_exists (files st1) (pdf_path_of v)"
    and "glob (files st1) (img_dir_of v) ([], ''.jpg'') = []"
  shows "fst (images_to_pdf (img_dir_of v) (pdf_path_of v) st1) = Inr False
     \<and> fst (process_video e v st)"
proof -
  have i: "images_to_pdf (img_dir_of v) (pdf_path_of v) st1
      = (Inr False, safe_print (NO_frames_found (img_dir_of v)) st1)"
    using assms(2,3) by (rule images_to_pdf_empty)
  have "fst (delete_frames (img_dir_of v) (safe_print (NO_frames_found (img_dir_of v)) st1)) = Inr ()"
    using assms(3) by (simp add: delete_frames_nothing_to_delete)
  then obtain st3 where
    "delete_frames (img_dir_of v) (safe_print (NO_frames_found (img_dir_of v)) st1) = (Inr (), st3)"
    by (cases "delete_frames (img_dir_of v) (safe_print (NO_frames_found (img_dir_of v)) st1)") simp
  with assms(1) i show ?thesis by (auto simp: process_video_flag)
qed

text \<open>
  Claim C2 fails on the code. For a video of which the tool extracts no frame,
  \<open>images_to_pdf\<close> prints "NO frames found" and returns the failure flag, no PDF is
  made, and \<open>process_video\<close> nevertheless returns the success flag and logs nothing.
\<close>

theorem process_video_reports_success_without_frames:
  "process_video \<lparr>ffmpeg_on_path = True, ffmpeg_run = no_frames_tool\<rparr>
     [''video'', ''001 a.mp4'']
     (start_state [([''video''], Dir), ([''video'', ''001 a.mp4''], File Other)])
   = (True,
      \<lparr>files = [([''video''], Dir), ([''video'', ''001 a.mp4''], File Other), ([''pdf''], Dir)],
       console = [Processing ''001 a.mp4'', Extracting_frames ''001 a.mp4'',
                  Frame_extraction_complete ''001 a.mp4'', NO_frames_found [''pdf'', ''001'']],
       run_log = [],
       tool_calls = [[''ffmpeg'', ''-i'', ''video/001 a.mp4'', ''-vf'', ''fps=0.02'',
                      ''pdf/001/frame_%04d.jpg'']],
       open_images = [], pdf_saves = []\<rparr>)"
proof -
  let ?e = "\<lparr>ffmpeg_on_path = True, ffmpeg_run = no_frames_tool\<rparr>"
  let ?v = "[''video'', ''001 a.mp4'']"
  let ?fs0 = "[([''video''], Dir), ([''video'', ''001 a.mp4''], File Other)]"
  let ?fs1 = "[([''video''], Dir), ([''video'', ''001 a.mp4''], File Other),
               ([''pdf''], Dir), ([''pdf'', ''001''], Dir)]"
  let ?cmd = "[''ffmpeg'', ''-i'', ''video/001 a.mp4'', ''-vf'', ''fps=0.02'',
               ''pdf/001/frame_%04d.jpg'']"
  let ?st0 = "\<lparr>files = ?fs0, console = [Processing ''001 a.mp4''], run_log = [],
      tool_calls = [], open_images = [], pdf_saves = []\<rparr>"
  let ?st1 = "\<lparr>files = ?fs1,
      console = [Processing ''001 a.mp4'', Extracting_frames ''001 a.mp4'',
                 Frame_extraction_complete ''001 a.mp4''],
      run_log = [], tool_calls = [?cmd], open_images = [], pdf_saves = []\<rparr>"
  let ?st2 = "\<lparr>files = ?fs1,
      console = [Processing ''001 a.mp4'', Extracting_frames ''001 a.mp4'',
                 Frame_extraction_complete ''001 a.mp4'', NO_frames_found [''pdf'', ''001'']],
      run_log = [], tool_calls = [?cmd], open_images = [], pdf_saves = []\<rparr>"
  let ?st3 = "\<lparr>files = [([''video''], Dir), ([''video'', ''001 a.mp4''], File Other), ([''pdf''], Dir)],
      console = [Processing ''001 a.mp4'', Extracting_frames ''001 a.mp4'',
                 Frame_extraction_complete ''001 a.mp4'', NO_frames_found [''pdf'', ''001'']],
      run_log = [], tool_calls = [?cmd], open_images = [], pdf_saves = []\<rparr>"
  have n: "img_dir_of ?v = [''pdf'', ''001'']" "pdf_path_of ?v = [''pdf'', ''001.pdf'']"
    by (simp_all add: path_eval)
  have p: "safe_print (Processing (path_name ?v)) (start_state ?fs0) = ?st0"
    by (simp add: safe_print_def start_state_def path_name_def)
  have m: "mkdir_parents ?fs0 [''pdf'', ''001''] = Inr ?fs1"
    by (subst mkdir_parents_two_new) (simp_all add: path_exists_def lookup_def)
  have x: "extract_frames ?e ?v [''pdf'', ''001''] ?st0 = (Inr True, ?st1)"
    by (simp add: extract_frames_def m subprocess_run_def ffmpeg_cmd_example no_frames_tool_def
        fs_eval)
  have i: "images_to_pdf [''pdf'', ''001''] [''pdf'', ''001.pdf''] ?st1 = (Inr False, ?st2)"
    by (simp add: images_to_pdf_def fs_eval)
  have d: "delete_frames [''pdf'', ''001''] ?st2 = (Inr (), ?st3)"
    by (simp add: delete_frames_def rmdir_def fs_eval AList.delete_eq)
  show ?thesis
    by (simp add: process_video_def n p x i d)
qed

end
